theory Spec2Isabelle
  imports Complex_Main "HOL-Library.AList" "HOL-Library.Multiset"
begin

section \<open>The credential pool: class ApiKeyManager (main.ts, lines 68-121)\<close>

text \<open>
  The manager holds the configured keys, the round-robin cursor and the map of failed
  keys. The JavaScript \<^verbatim>\<open>Map<string, number>\<close> keeps its entries in insertion order, so
  it is an association list here: \<^verbatim>\<open>set\<close> is \<open>AList.update\<close> (an existing key keeps
  its place), \<^verbatim>\<open>has\<close> looks the key up, \<^verbatim>\<open>clear\<close> is the empty list.
  A value of type \<^verbatim>\<open>string\<close> that may be \<^verbatim>\<open>undefined\<close> at run time
  is a \<open>string option\<close>: \<^verbatim>\<open>markKeyAsFailed\<close> is called with whatever
  \<^verbatim>\<open>getKey\<close> returned, and that is \<^verbatim>\<open>undefined\<close> for an empty pool, so the
  keys of the map are options. \<^verbatim>\<open>Date.now()\<close> is an argument \<open>now\<close>, an integer
  number of milliseconds. The cursor is a natural number (the loss of precision of a
  JavaScript number beyond \<open>2^53\<close> is not modelled).
\<close>

record ApiKeyManager =
  keys :: "string list"
  currentIndex :: nat
  failedKeys :: "(string option \<times> int) list"

definition FAILURE_TIMEOUT :: int where
  "FAILURE_TIMEOUT = 60000"

definition new_ApiKeyManager :: "string list \<Rightarrow> ApiKeyManager" where
  "new_ApiKeyManager ks = \<lparr>keys = ks, currentIndex = 0, failedKeys = []\<rparr>"

definition has :: "(string option \<times> int) list \<Rightarrow> string option \<Rightarrow> bool" where
  "has fk key = (key \<in> set (map fst fk))"

text \<open>
  Thrown values. Only the kind of the error and its \<^verbatim>\<open>message\<close> matter to the code.
  Reading \<^verbatim>\<open>substring\<close> of \<^verbatim>\<open>undefined\<close> throws a TypeError.
\<close>

datatype js_error =
  TypeError string | RangeError string | SyntaxError string | NetworkError string | Error string

fun message :: "js_error \<Rightarrow> string" where
  "message (TypeError msg) = msg"
| "message (RangeError msg) = msg"
| "message (SyntaxError msg) = msg"
| "message (NetworkError msg) = msg"
| "message (Error msg) = msg"

definition cannot_read :: "string \<Rightarrow> js_error" where
  "cannot_read property =
     TypeError (''Cannot read properties of undefined (reading '' @ [CHR 0x27] @
       property @ [CHR 0x27] @ '')'')"

definition substring_of_undefined :: js_error where
  "substring_of_undefined = cannot_read ''substring''"

text \<open>
  Lines 82-87, the loop over the entries of the failure map, in insertion order. An
  entry with \<^verbatim>\<open>now - failTime > FAILURE_TIMEOUT\<close> is deleted (deleting the current entry
  while iterating a Map skips nothing), and then the line for \<^verbatim>\<open>console.log\<close> reads
  \<^verbatim>\<open>key.substring(0, 8)\<close>, which throws when the key is \<^verbatim>\<open>undefined\<close>: the loop ends
  there, with that entry deleted and the later entries not looked at. The result is the
  exception, if any, and the entries left in the map.
\<close>

fun purge :: "int \<Rightarrow> (string option \<times> int) list \<Rightarrow> js_error option \<times> (string option \<times> int) list" where
  "purge now [] = (None, [])"
| "purge now ((key, failTime) # entries) =
     (if now - failTime > FAILURE_TIMEOUT then
        (case key of
           None \<Rightarrow> (Some substring_of_undefined, entries)
         | Some k \<Rightarrow> purge now entries)
      else
        (case purge now entries of (err, entries') \<Rightarrow> (err, (key, failTime) # entries')))"

text \<open>
  Line 90: the keys that are not in the failure map the purge left, in configuration
  order.
\<close>

definition availableKeys :: "int \<Rightarrow> ApiKeyManager \<Rightarrow> string list" where
  "availableKeys now m =
     filter (\<lambda>key. \<not> has (snd (purge now (failedKeys m))) (Some key)) (keys m)"

text \<open>
  \<^verbatim>\<open>getKey\<close>, lines 79-106. An exception of the purge leaves the method (\<open>Inl\<close>), with
  the cursor where it was. Otherwise: with no available key the failure map is cleared
  and the full list is indexed; for an empty list the index \<^verbatim>\<open>currentIndex % 0\<close> is NaN
  and the read yields \<^verbatim>\<open>undefined\<close> (\<open>Inr None\<close>). The result is the exception or the
  selected key, and the manager after the call.
\<close>

definition getKey :: "int \<Rightarrow> ApiKeyManager \<Rightarrow> (js_error + string option) \<times> ApiKeyManager" where
  "getKey now m =
     (case fst (purge now (failedKeys m)) of
        Some err \<Rightarrow> (Inl err, m\<lparr>failedKeys := snd (purge now (failedKeys m))\<rparr>)
      | None \<Rightarrow>
          (let available = availableKeys now m in
           if length available = 0 then
             (Inr (if length (keys m) = 0 then None
                   else Some (keys m ! (currentIndex m mod length (keys m)))),
              m\<lparr>failedKeys := [], currentIndex := currentIndex m + 1\<rparr>)
           else
             (Inr (Some (available ! (currentIndex m mod length available))),
              m\<lparr>failedKeys := snd (purge now (failedKeys m)),
                currentIndex := currentIndex m + 1\<rparr>)))"

text \<open>
  Repeated calls of \<^verbatim>\<open>getKey\<close>, one per time stamp, with nothing in between: what each
  call returned or threw.
\<close>

fun getKeys :: "int list \<Rightarrow> ApiKeyManager \<Rightarrow> (js_error + string option) list \<times> ApiKeyManager" where
  "getKeys [] m = ([], m)"
| "getKeys (now # ts) m =
     (case getKey now m of (k, m1) \<Rightarrow>
        (case getKeys ts m1 of (ks, m2) \<Rightarrow> (k # ks, m2)))"

text \<open>
  \<^verbatim>\<open>markKeyAsFailed\<close>, lines 108-111. The map is updated first; then the line for
  \<^verbatim>\<open>console.error\<close> is built, which reads \<^verbatim>\<open>key.substring(0, 8)\<close> and throws when the
  key is \<^verbatim>\<open>undefined\<close>. The result is the exception (\<open>Inl\<close>) or the line written
  (\<open>Inr\<close>), and the manager after the call. The optional parameter \<^verbatim>\<open>error\<close> is a
  \<open>string option\<close>; \<^verbatim>\<open>error || 'Unknown'\<close> replaces a missing or empty one.
\<close>

definition markKeyAsFailed ::
    "int \<Rightarrow> string option \<Rightarrow> string option \<Rightarrow> ApiKeyManager \<Rightarrow> (js_error + string) \<times> ApiKeyManager" where
  "markKeyAsFailed now key error m =
     (let m' = m\<lparr>failedKeys := AList.update key now (failedKeys m)\<rparr> in
      case key of
        None \<Rightarrow> (Inl substring_of_undefined, m')
      | Some k \<Rightarrow>
          (Inr (''Marked key as failed: '' @ take 8 k @ ''... Error: '' @
                (case error of None \<Rightarrow> ''Unknown''
                 | Some e \<Rightarrow> if e = [] then ''Unknown'' else e)), m'))"

text \<open>
  A sequence of calls on the manager by its callers, each with the value of
  \<^verbatim>\<open>Date.now()\<close> it reads. For every \<^verbatim>\<open>getKey\<close> call the run records what the call
  returned or threw, and the list of available keys the call computed (empty exactly
  when the call cleared the failure map and fell back to the full list; \<open>None\<close> when the
  call threw before it computed the list).
\<close>

datatype pool_call = GetKey int | MarkKeyAsFailed string int

fun time_of :: "pool_call \<Rightarrow> int" where
  "time_of (GetKey now) = now"
| "time_of (MarkKeyAsFailed k now) = now"

record selection =
  returned :: "js_error + string option"
  available :: "string list option"

fun run_calls :: "pool_call list \<Rightarrow> ApiKeyManager \<Rightarrow> selection list \<times> ApiKeyManager" where
  "run_calls [] m = ([], m)"
| "run_calls (GetKey now # cs) m =
     (case getKey now m of (k, m1) \<Rightarrow>
        (case run_calls cs m1 of (sels, m2) \<Rightarrow>
           (\<lparr>returned = k,
             available = (case k of Inl err \<Rightarrow> None | Inr key \<Rightarrow> Some (availableKeys now m))\<rparr>
            # sels, m2)))"
| "run_calls (MarkKeyAsFailed k now # cs) m =
     run_calls cs (snd (markKeyAsFailed now (Some k) None m))"

text \<open>
  The invariant behind the recovery window: the key \<open>c\<close> has a failure record that is
  not older than \<open>t\<close>.
\<close>

definition failed_since :: "string \<Rightarrow> int \<Rightarrow> ApiKeyManager \<Rightarrow> bool" where
  "failed_since c t m = (case map_of (failedKeys m) (Some c) of None \<Rightarrow> False | Some t' \<Rightarrow> t \<le> t')"

section \<open>Delivery with retries: makeRequestWithRetry (main.ts, lines 188-248)\<close>

text \<open>Decimal digits of a number, as a template literal prints it.\<close>

function dec :: "nat \<Rightarrow> string" where
  "dec n = (if n < 10 then [''0123456789'' ! n] else dec (n div 10) @ [''0123456789'' ! (n mod 10)])"
  by pat_completeness auto
termination
  by (relation "measure (\<lambda>n. n)") auto

declare dec.simps [simp del]

text \<open>
  A response is its status, its headers and its body text. \<^verbatim>\<open>response.ok\<close> holds for a
  status from 200 to 299.
\<close>

record http_response =
  status :: nat
  headers :: "(string \<times> string) list"
  body :: string

definition ok :: "http_response \<Rightarrow> bool" where
  "ok response = (200 \<le> status response \<and> status response \<le> 299)"

text \<open>
  The constructor \<^verbatim>\<open>new Response(body, {status, headers})\<close> with a body that is a string.
  It throws a RangeError for a status outside 200 to 599 (the Deno runtime lets 101
  pass this test), and a TypeError for a null-body status, since the body is not
  \<^verbatim>\<open>null\<close>. The message texts are the ones of the Deno runtime.
\<close>

definition null_body_status :: "nat \<Rightarrow> bool" where
  "null_body_status st = (st = 101 \<or> st = 204 \<or> st = 205 \<or> st = 304)"

definition status_out_of_range :: "nat \<Rightarrow> js_error" where
  "status_out_of_range st =
     RangeError (''The status provided ('' @ dec st @
       '') is not equal to 101 and outside the range [200, 599]'')"

definition body_with_null_body_status :: js_error where
  "body_with_null_body_status = TypeError ''Response with null body status cannot have body''"

definition new_Response :: "string \<Rightarrow> nat \<Rightarrow> (string \<times> string) list \<Rightarrow> js_error + http_response" where
  "new_Response bodyText st hs =
     (if (st < 200 \<or> 599 < st) \<and> st \<noteq> 101 then Inl (status_out_of_range st)
      else if null_body_status st then Inl body_with_null_body_status
      else Inr \<lparr>status = st, headers = hs, body = bodyText\<rparr>)"

text \<open>
  What the world does in one attempt. \<open>Responded r\<close>: \<^verbatim>\<open>fetch\<close> resolved with the
  response \<open>r\<close> (and, for a response that is not ok, \<^verbatim>\<open>response.text()\<close> resolved with
  \<open>body r\<close>). \<open>Rejected msg\<close>: an \<^verbatim>\<open>await\<close> of the try block rejected with an error whose
  \<^verbatim>\<open>message\<close> is \<open>msg\<close> (a network-level failure). The two time stamps are the values
  \<^verbatim>\<open>Date.now()\<close> has when \<^verbatim>\<open>getKey\<close> and \<^verbatim>\<open>markKeyAsFailed\<close> read it.
\<close>

datatype fetch_result = Responded http_response | Rejected string

record attempt_env =
  select_time :: int
  fetched :: fetch_result
  mark_time :: int

text \<open>
  The state the function works on: the module-level \<^verbatim>\<open>keyManager\<close>; the Authorization
  header of every \<^verbatim>\<open>fetch\<close> issued so far; the lines \<^verbatim>\<open>markKeyAsFailed\<close> wrote to the
  console; the delays slept between attempts, in milliseconds. The request's body is
  passed to \<^verbatim>\<open>fetch\<close> unchanged and decides nothing here, so it is left out. Of the
  other console output only the reads that can throw are modelled
  (\<^verbatim>\<open>selectedKey.substring(0, 8)\<close>, line 195).
\<close>

record retry_state =
  keyManager :: ApiKeyManager
  issued :: "string list"
  console :: "string list"
  slept :: "nat list"

datatype outcome = Returned http_response | Thrown js_error

datatype step = Finished outcome | NextAttempt string

text \<open>
  A call \<^verbatim>\<open>keyManager.markKeyAsFailed(key, reason)\<close>: the exception it throws, if any, and
  the state after it.
\<close>

definition mark :: "int \<Rightarrow> string option \<Rightarrow> string \<Rightarrow> retry_state \<Rightarrow> js_error option \<times> retry_state" where
  "mark now key reason w =
     (case markKeyAsFailed now key (Some reason) (keyManager w) of
        (Inl err, m') \<Rightarrow> (Some err, w\<lparr>keyManager := m'\<rparr>)
      | (Inr line, m') \<Rightarrow> (None, w\<lparr>keyManager := m', console := console w @ [line]\<rparr>))"

text \<open>
  Lines 194-231, the try block: \<open>Inl\<close> is an exception thrown inside it, \<open>Inr\<close> how the
  block ends otherwise (a return, or falling through to the delay with the new
  \<^verbatim>\<open>lastError\<close>). On the last attempt \<^verbatim>\<open>new Response(errorText, ...)\<close> is called inside
  the block, so an exception it throws is caught at line 233 like any other.
\<close>

definition try_block ::
    "attempt_env \<Rightarrow> nat \<Rightarrow> nat \<Rightarrow> string option \<Rightarrow> retry_state \<Rightarrow> (js_error + step) \<times> retry_state" where
  "try_block e maxRetries attempt selectedKey w =
     (case selectedKey of
        None \<Rightarrow> (Inl substring_of_undefined, w)
      | Some k \<Rightarrow>
          (let w1 = w\<lparr>issued := issued w @ [''Bearer '' @ k]\<rparr> in
           case fetched e of
             Rejected msg \<Rightarrow> (Inl (NetworkError msg), w1)
           | Responded response \<Rightarrow>
               if ok response then (Inr (Finished (Returned response)), w1)
               else
                 (let errorText = body response;
                      lastError = ''HTTP '' @ dec (status response) @ '': '' @ errorText in
                  case (if status response = 401 \<or> status response = 403
                        then mark (mark_time e) selectedKey (''HTTP '' @ dec (status response)) w1
                        else (None, w1)) of
                    (Some err, w2) \<Rightarrow> (Inl err, w2)
                  | (None, w2) \<Rightarrow>
                      if attempt = maxRetries then
                        (case new_Response errorText (status response)
                                [(''Access-Control-Allow-Origin'', ''*''),
                                 (''Content-Type'', ''application/json'')] of
                           Inl err \<Rightarrow> (Inl err, w2)
                         | Inr errorResponse \<Rightarrow> (Inr (Finished (Returned errorResponse)), w2))
                      else (Inr (NextAttempt lastError), w2))))"

text \<open>
  Lines 233-241, the catch block. An exception thrown by \<^verbatim>\<open>markKeyAsFailed\<close> here leaves
  the function; otherwise the caught error is thrown again on the last attempt.
\<close>

definition catch_block ::
    "attempt_env \<Rightarrow> nat \<Rightarrow> nat \<Rightarrow> string option \<Rightarrow> js_error \<Rightarrow> retry_state \<Rightarrow> step \<times> retry_state" where
  "catch_block e maxRetries attempt selectedKey error w =
     (case mark (mark_time e) selectedKey (message error) w of
        (Some err, w') \<Rightarrow> (Finished (Thrown err), w')
      | (None, w') \<Rightarrow>
          if attempt = maxRetries then (Finished (Thrown error), w')
          else (NextAttempt (message error), w'))"

text \<open>
  One iteration of the loop, up to the delay: lines 192-241. The call of
  \<^verbatim>\<open>keyManager.getKey()\<close> (line 192) stands before the try block, so an exception it
  throws leaves the function.
\<close>

definition attempt_body :: "attempt_env \<Rightarrow> nat \<Rightarrow> nat \<Rightarrow> retry_state \<Rightarrow> step \<times> retry_state" where
  "attempt_body e maxRetries attempt w =
     (case getKey (select_time e) (keyManager w) of
        (Inl err, m1) \<Rightarrow> (Finished (Thrown err), w\<lparr>keyManager := m1\<rparr>)
      | (Inr selectedKey, m1) \<Rightarrow>
          (case try_block e maxRetries attempt selectedKey (w\<lparr>keyManager := m1\<rparr>) of
             (Inl error, w2) \<Rightarrow> catch_block e maxRetries attempt selectedKey error w2
           | (Inr st, w2) \<Rightarrow> (st, w2)))"

text \<open>
  The loop \<^verbatim>\<open>for (attempt = 1; attempt <= maxRetries; attempt++)\<close> with the delay of
  line 244 and the final throw of line 247. \<open>env attempt\<close> is what the world does in
  that attempt.
\<close>

function retry_loop ::
    "(nat \<Rightarrow> attempt_env) \<Rightarrow> nat \<Rightarrow> nat \<Rightarrow> string \<Rightarrow> retry_state \<Rightarrow> outcome \<times> retry_state" where
  "retry_loop env maxRetries attempt lastError w =
     (if attempt \<le> maxRetries then
        (case attempt_body (env attempt) maxRetries attempt w of
           (Finished out, w') \<Rightarrow> (out, w')
         | (NextAttempt lastError', w') \<Rightarrow>
             retry_loop env maxRetries (attempt + 1) lastError'
               (w'\<lparr>slept := slept w' @ [1000 * attempt]\<rparr>))
      else
        (Thrown (Error (''All '' @ dec maxRetries @ '' attempts failed. Last error: '' @ lastError)),
         w))"
  by pat_completeness auto
termination
  by (relation "measure (\<lambda>(env, maxRetries, attempt, lastError, w). maxRetries + 1 - attempt)") auto

declare retry_loop.simps [simp del]

definition makeRequestWithRetry :: "(nat \<Rightarrow> attempt_env) \<Rightarrow> nat \<Rightarrow> retry_state \<Rightarrow> outcome \<times> retry_state" where
  "makeRequestWithRetry env maxRetries w = retry_loop env maxRetries 1 [] w"

text \<open>The state of a fresh process with the configured keys.\<close>

definition initial_state :: "string list \<Rightarrow> retry_state" where
  "initial_state ks = \<lparr>keyManager = new_ApiKeyManager ks, issued = [], console = [], slept = []\<rparr>"


text \<open>
  What the caller gets when the last attempt fails with the given result, for a status
  \<^verbatim>\<open>new Response\<close> accepts.
\<close>

definition last_failure :: "fetch_result \<Rightarrow> outcome" where
  "last_failure f = (case f of
     Responded r \<Rightarrow> Returned \<lparr>status = status r,
         headers = [(''Access-Control-Allow-Origin'', ''*''), (''Content-Type'', ''application/json'')],
         body = body r\<rparr>
   | Rejected msg \<Rightarrow> Thrown (NetworkError msg))"

section \<open>Request translation: convertClaudeToOpenAI (main.ts, lines 153-185)\<close>

text \<open>
  Values of type \<^verbatim>\<open>any\<close> are JSON values; a property that may be missing is an
  option. Numbers are reals (a parsed JSON number is finite, so there is no NaN).
  \<open>truthy\<close> is JavaScript's conversion to a boolean, which decides \<^verbatim>\<open>a || b\<close> and
  \<^verbatim>\<open>a && b\<close>; \<^verbatim>\<open>undefined\<close> (\<open>None\<close>) is falsy.
\<close>

datatype json =
  JNull | JBool bool | JNum real | JStr string | JArr "json list" | JObj "(string \<times> json) list"

fun truthy :: "json \<Rightarrow> bool" where
  "truthy JNull = False"
| "truthy (JBool b) = b"
| "truthy (JNum x) = (x \<noteq> 0)"
| "truthy (JStr s) = (s \<noteq> [])"
| "truthy (JArr xs) = True"
| "truthy (JObj kvs) = True"

text \<open>\<^verbatim>\<open>a || d\<close> for a property \<open>a\<close> that may be missing, given the truthiness of its type.\<close>

definition js_or :: "('a \<Rightarrow> bool) \<Rightarrow> 'a option \<Rightarrow> 'a \<Rightarrow> 'a" where
  "js_or truth a d = (case a of None \<Rightarrow> d | Some v \<Rightarrow> if truth v then v else d)"

fun join :: "string \<Rightarrow> string list \<Rightarrow> string" where
  "join sep [] = []"
| "join sep [x] = x"
| "join sep (x # y # ys) = x @ sep @ join sep (y # ys)"

record content_block =
  block_type :: string
  block_text :: "string option"
  rest :: "(string \<times> json) list"

datatype message_content = Text string | Blocks "content_block list"

record ClaudeMessage =
  role :: string
  content :: message_content

record claude_tool =
  name :: "json option"
  description :: "json option"
  input_schema :: "json option"

record ClaudeRequest =
  model :: string
  messages :: "ClaudeMessage list"
  max_tokens :: "real option"
  temperature :: "real option"
  stream :: "bool option"
  tools :: "claude_tool list option"
  tool_choice :: "json option"

text \<open>
  The outbound request; its fields carry the suffix \<open>_out\<close> to keep them apart from the
  inbound ones. The object literal of lines 176-184 always has \<^verbatim>\<open>max_tokens\<close>,
  \<^verbatim>\<open>temperature\<close> and \<^verbatim>\<open>stream\<close>; \<^verbatim>\<open>tools\<close> and \<^verbatim>\<open>tool_choice\<close> are spread in only
  when truthy.
\<close>

record OpenAIMessage =
  role_out :: string
  content_out :: string

record openai_tool =
  tool_type :: string
  function_name :: "json option"
  function_description :: "json option"
  function_parameters :: "json option"

datatype model_value = ModelName string | InheritedProperty string

record OpenAIRequest =
  model_out :: model_value
  messages_out :: "OpenAIMessage list"
  max_tokens_out :: real
  temperature_out :: real
  stream_out :: bool
  tools_out :: "openai_tool list option"
  tool_choice_out :: "json option"

definition MODEL_MAPPING :: "(string \<times> string) list" where
  "MODEL_MAPPING =
     [(''claude-3-5-haiku-20241022'', ''anthropic/claude-3.5-haiku''),
      (''claude-sonnet-4-20250514'', ''anthropic/claude-sonnet-4''),
      (''claude-opus-4-20250514'', ''anthropic/claude-opus-4'')]"

text \<open>
  \<^verbatim>\<open>MODEL_MAPPING\<close> is an object literal, so \<^verbatim>\<open>MODEL_MAPPING[name]\<close> also finds the
  properties the object inherits from \<^verbatim>\<open>Object.prototype\<close>. Their values are functions:
  truthy, so the default is not taken, and not a model name. (\<^verbatim>\<open>__proto__\<close>, which the
  Deno runtime deletes from \<^verbatim>\<open>Object.prototype\<close>, is not among them.)
\<close>

definition object_prototype_properties :: "string list" where
  "object_prototype_properties =
     [''constructor'', ''hasOwnProperty'', ''isPrototypeOf'', ''propertyIsEnumerable'',
      ''toLocaleString'', ''toString'', ''valueOf'', ''__defineGetter__'', ''__defineSetter__'',
      ''__lookupGetter__'', ''__lookupSetter__'']"

definition lookup_model :: "string \<Rightarrow> model_value" where
  "lookup_model m =
     (case map_of MODEL_MAPPING m of
        Some v \<Rightarrow> if v \<noteq> [] then ModelName v else ModelName ''anthropic/claude-4-sonnet''
      | None \<Rightarrow>
          if m \<in> set object_prototype_properties then InheritedProperty m
          else ModelName ''anthropic/claude-4-sonnet'')"

text \<open>\<^verbatim>\<open>JSON.stringify\<close> of a content block is the parameter \<open>stringify\<close>.\<close>

definition convertClaudeToOpenAI :: "(content_block \<Rightarrow> string) \<Rightarrow> ClaudeRequest \<Rightarrow> OpenAIRequest" where
  "convertClaudeToOpenAI stringify claudeRequest =
     (let openaiMessages =
            map (\<lambda>msg. \<lparr>role_out = role msg,
                        content_out =
                          (case content msg of
                             Blocks cs \<Rightarrow>
                               join [CHR 0x0A]
                                 (map (\<lambda>c. js_or (\<lambda>t. t \<noteq> []) (block_text c) (stringify c)) cs)
                           | Text t \<Rightarrow> t)\<rparr>)
              (messages claudeRequest);
          openaiModel = lookup_model (model claudeRequest);
          openaiTools =
            map_option
              (map (\<lambda>tool. \<lparr>tool_type = ''function'',
                             function_name = name tool,
                             function_description = description tool,
                             function_parameters = input_schema tool\<rparr>))
              (tools claudeRequest)
      in \<lparr>model_out = openaiModel,
          messages_out = openaiMessages,
          max_tokens_out = js_or (\<lambda>n. n \<noteq> 0) (max_tokens claudeRequest) 4096,
          temperature_out = js_or (\<lambda>t. t \<noteq> 0) (temperature claudeRequest) 0.7,
          stream_out = js_or (\<lambda>b. b) (stream claudeRequest) False,
          tools_out = openaiTools,
          tool_choice_out =
            (case tool_choice claudeRequest of
               None \<Rightarrow> None
             | Some v \<Rightarrow> if truthy v then Some v else None)\<rparr>)"

section \<open>Response translation: convertOpenAIToClaude (main.ts, lines 251-295)\<close>

text \<open>
  The outbound response, typed as the code reads it: a property that may be missing or
  \<^verbatim>\<open>null\<close> is an option; \<^verbatim>\<open>tool_calls\<close>, when present, is an array of calls with an id,
  a function name and the JSON text of the arguments.
\<close>

record tool_call =
  call_id :: string
  call_name :: string
  call_arguments :: string

record openai_message =
  message_content :: "string option"
  tool_calls :: "tool_call list option"

record openai_choice =
  choice_message :: "openai_message option"
  finish_reason :: "string option"

record openai_usage =
  prompt_tokens :: nat
  completion_tokens :: nat

record openai_response =
  response_id :: "string option"
  response_model :: "string option"
  choices :: "openai_choice list option"
  usage :: "openai_usage option"

text \<open>
  The inbound response. A tool-use block has the call's id, the function name and the
  parsed arguments. \<^verbatim>\<open>stop_sequence\<close> is always \<^verbatim>\<open>null\<close> and is left out.
\<close>

datatype claude_block = TextBlock string | ToolUse string string json

record claude_usage =
  input_tokens :: nat
  output_tokens :: nat

record claude_response =
  msg_id :: string
  msg_type :: string
  msg_role :: string
  msg_content :: "claude_block list"
  msg_model :: "string option"
  stop_reason :: "string option"
  msg_usage :: "claude_usage option"

datatype converted = Converted claude_response | Unchanged openai_response

definition show_int :: "int \<Rightarrow> string" where
  "show_int n = (if n < 0 then ''-'' @ dec (nat (- n)) else dec (nat n))"

text \<open>
  Lines 260-265: one tool-use block per call. \<^verbatim>\<open>JSON.parse\<close> is the parameter \<open>parse\<close>
  (\<open>None\<close> when it throws); the first text that does not parse ends the conversion with
  a SyntaxError, which carries that text here.
\<close>

fun tool_use_blocks :: "(string \<Rightarrow> json option) \<Rightarrow> tool_call list \<Rightarrow> js_error + claude_block list" where
  "tool_use_blocks parse [] = Inr []"
| "tool_use_blocks parse (call # calls) =
     (case parse (call_arguments call) of
        None \<Rightarrow> Inl (SyntaxError (call_arguments call))
      | Some input \<Rightarrow>
          (case tool_use_blocks parse calls of
             Inl err \<Rightarrow> Inl err
           | Inr blocks \<Rightarrow> Inr (ToolUse (call_id call) (call_name call) input # blocks)))"

definition convert_usage :: "openai_usage option \<Rightarrow> claude_usage option" where
  "convert_usage u =
     map_option (\<lambda>u. \<lparr>input_tokens = prompt_tokens u, output_tokens = completion_tokens u\<rparr>) u"

text \<open>\<^verbatim>\<open>choice.message?.tool_calls\<close> and \<^verbatim>\<open>choice.message?.content\<close>.\<close>

definition tool_calls_of :: "openai_choice \<Rightarrow> tool_call list option" where
  "tool_calls_of choice = (case choice_message choice of None \<Rightarrow> None | Some m \<Rightarrow> tool_calls m)"

definition content_of :: "openai_choice \<Rightarrow> string option" where
  "content_of choice = (case choice_message choice of None \<Rightarrow> None | Some m \<Rightarrow> message_content m)"

text \<open>
  The condition \<^verbatim>\<open>choice.message?.tool_calls\<close> of line 255 is truthy for every array,
  the empty one included, so the tool branch is taken whenever the property is present.
\<close>

definition convertOpenAIToClaude ::
    "(string \<Rightarrow> json option) \<Rightarrow> int \<Rightarrow> openai_response \<Rightarrow> js_error + converted" where
  "convertOpenAIToClaude parse now openaiResponse =
     (case choices openaiResponse of
        Some (choice # others) \<Rightarrow>
          (case tool_calls_of choice of
             Some calls \<Rightarrow>
               (case tool_use_blocks parse calls of
                  Inl err \<Rightarrow> Inl err
                | Inr blocks \<Rightarrow>
                    Inr (Converted
                      \<lparr>msg_id = js_or (\<lambda>i. i \<noteq> []) (response_id openaiResponse) (''msg_'' @ show_int now),
                       msg_type = ''message'',
                       msg_role = ''assistant'',
                       msg_content = blocks,
                       msg_model = response_model openaiResponse,
                       stop_reason = Some ''tool_use'',
                       msg_usage = convert_usage (usage openaiResponse)\<rparr>))
           | None \<Rightarrow>
               Inr (Converted
                 \<lparr>msg_id = js_or (\<lambda>i. i \<noteq> []) (response_id openaiResponse) (''msg_'' @ show_int now),
                  msg_type = ''message'',
                  msg_role = ''assistant'',
                  msg_content =
                    [TextBlock (js_or (\<lambda>t. t \<noteq> []) (content_of choice) [])],
                  msg_model = response_model openaiResponse,
                  stop_reason =
                    (if finish_reason choice = Some ''stop'' then Some ''end_turn''
                     else finish_reason choice),
                  msg_usage = convert_usage (usage openaiResponse)\<rparr>))
      | _ \<Rightarrow> Inr (Unchanged openaiResponse))"


section \<open>Stream translation: convertOpenAIStreamToClaude (main.ts, lines 297-341)\<close>

text \<open>
  An upstream chunk as the code reads it. A tool-call fragment has an optional index,
  an optional call id and an optional function part with an optional name and optional
  argument text.
\<close>

record fragment_function =
  frag_name :: "string option"
  frag_arguments :: "string option"

record tool_call_fragment =
  frag_index :: "nat option"
  frag_id :: "string option"
  frag_function :: "fragment_function option"

record stream_delta =
  delta_content :: "string option"
  delta_tool_calls :: "tool_call_fragment list option"

record stream_choice =
  delta :: "stream_delta option"

record openai_chunk =
  chunk_id :: "string option"
  chunk_model :: "string option"
  chunk_choices :: "stream_choice list option"

text \<open>
  The three objects the function returns: the start of a tool-use block (index, call
  id, function name), a delta of argument text at the fragment's index, and a text delta
  at index 0.
\<close>

datatype claude_event =
    ContentBlockStart nat string "string option"
  | InputJsonDelta "nat option" string
  | TextDelta string

fun event_type :: "claude_event \<Rightarrow> string" where
  "event_type (ContentBlockStart i tid fname) = ''content_block_start''"
| "event_type (InputJsonDelta i partial_json) = ''content_block_delta''"
| "event_type (TextDelta t) = ''content_block_delta''"

fun event_index :: "claude_event \<Rightarrow> nat option" where
  "event_index (ContentBlockStart i tid fname) = Some i"
| "event_index (InputJsonDelta i partial_json) = i"
| "event_index (TextDelta t) = Some 0"

text \<open>
  Lines 302-316. \<^verbatim>\<open>delta.tool_calls[0]\<close> of an empty array is \<^verbatim>\<open>undefined\<close>, and reading
  its \<^verbatim>\<open>index\<close> throws; so does reading \<^verbatim>\<open>name\<close> of a missing \<^verbatim>\<open>function\<close>.
\<close>

definition tool_call_start :: "stream_delta option \<Rightarrow> js_error + claude_event option" where
  "tool_call_start d =
     (case (case d of None \<Rightarrow> None | Some d' \<Rightarrow> delta_tool_calls d') of
        None \<Rightarrow> Inr None
      | Some [] \<Rightarrow> Inl (cannot_read ''index'')
      | Some (toolCall # others) \<Rightarrow>
          (case frag_id toolCall of
             Some tid \<Rightarrow>
               if frag_index toolCall = Some 0 \<and> tid \<noteq> [] then
                 (case frag_function toolCall of
                    None \<Rightarrow> Inl (cannot_read ''name'')
                  | Some f \<Rightarrow> Inr (Some (ContentBlockStart 0 tid (frag_name f))))
               else Inr None
           | None \<Rightarrow> Inr None))"

text \<open>Line 318: \<^verbatim>\<open>delta?.tool_calls?.[0]?.function?.arguments\<close>, with the fragment it is read from.\<close>

definition first_arguments :: "stream_delta option \<Rightarrow> (tool_call_fragment \<times> string) option" where
  "first_arguments d =
     (case (case d of None \<Rightarrow> None | Some d' \<Rightarrow> delta_tool_calls d') of
        Some (toolCall # others) \<Rightarrow>
          (case frag_function toolCall of
             Some f \<Rightarrow>
               (case frag_arguments f of
                  Some args \<Rightarrow> if args \<noteq> [] then Some (toolCall, args) else None
                | None \<Rightarrow> None)
           | None \<Rightarrow> None)
      | _ \<Rightarrow> None)"

definition convertOpenAIStreamToClaude :: "openai_chunk \<Rightarrow> js_error + claude_event option" where
  "convertOpenAIStreamToClaude openaiChunk =
     (case chunk_choices openaiChunk of
        Some (choice # others) \<Rightarrow>
          (case tool_call_start (delta choice) of
             Inl err \<Rightarrow> Inl err
           | Inr (Some ev) \<Rightarrow> Inr (Some ev)
           | Inr None \<Rightarrow>
               (case first_arguments (delta choice) of
                  Some (toolCall, args) \<Rightarrow> Inr (Some (InputJsonDelta (frag_index toolCall) args))
                | None \<Rightarrow>
                    (case (case delta choice of None \<Rightarrow> None | Some d' \<Rightarrow> delta_content d') of
                       Some t \<Rightarrow> if t \<noteq> [] then Inr (Some (TextDelta t)) else Inr None
                     | None \<Rightarrow> Inr None)))
      | _ \<Rightarrow> Inr None)"

section \<open>The stream handler of handleRequest (main.ts, lines 405-489)\<close>

text \<open>
  A frame written to the output is \<^verbatim>\<open>event: <name>\<close> and \<^verbatim>\<open>data: <json>\<close>; the model
  keeps the event name and the object that is serialised. The payload of the
  \<^verbatim>\<open>message_start\<close> frame carries the chunk's id and model; the payload of the
  \<^verbatim>\<open>message_stop\<close> frame carries the flag \<^verbatim>\<open>toolCallStarted\<close>.
\<close>

datatype sse_data =
    MessageStart "string option" "string option"
  | EventData claude_event
  | MessageStop bool

record sse_frame =
  event :: string
  data :: sse_data

text \<open>
  The variables of \<^verbatim>\<open>start\<close> and the frames \<^verbatim>\<open>controller.enqueue\<close> has accepted so far.
  \<^verbatim>\<open>controller.enqueue\<close> throws once the output stream is no longer readable (the
  consumer cancelled it); \<open>accepts n\<close> says whether the call succeeds when \<open>n\<close> frames
  have been accepted before. The upstream chunks are the decoded texts.
\<close>

record stream_state =
  buffer :: string
  toolCallStarted :: bool
  streamClosed :: bool
  enqueued :: "sse_frame list"

definition safeEnqueue :: "(nat \<Rightarrow> bool) \<Rightarrow> sse_frame \<Rightarrow> stream_state \<Rightarrow> stream_state" where
  "safeEnqueue accepts frame s =
     (if \<not> streamClosed s then
        (if accepts (length (enqueued s)) then s\<lparr>enqueued := enqueued s @ [frame]\<rparr>
         else s\<lparr>streamClosed := True\<rparr>)
      else s)"

text \<open>
  \<^verbatim>\<open>split('\n')\<close> and \<^verbatim>\<open>trim()\<close>. White space is the six ASCII characters JavaScript
  trims (the non-ASCII ones are not modelled).
\<close>

fun js_split :: "char \<Rightarrow> string \<Rightarrow> string list" where
  "js_split sep [] = [[]]"
| "js_split sep (c # cs) =
     (if c = sep then [] # js_split sep cs
      else (case js_split sep cs of [] \<Rightarrow> [[c]] | l # ls \<Rightarrow> (c # l) # ls))"

definition white_space :: "char \<Rightarrow> bool" where
  "white_space c = (c \<in> set [CHR 0x20, CHR 0x09, CHR 0x0A, CHR 0x0B, CHR 0x0C, CHR 0x0D])"

definition trim :: "string \<Rightarrow> string" where
  "trim s = rev (dropWhile white_space (rev (dropWhile white_space s)))"

definition message_start_frame :: "openai_chunk \<Rightarrow> sse_frame" where
  "message_start_frame openaiChunk =
     \<lparr>event = ''message_start'',
      data = MessageStart (chunk_id openaiChunk) (chunk_model openaiChunk)\<rparr>"

definition event_frame :: "claude_event \<Rightarrow> sse_frame" where
  "event_frame claudeEvent =
     \<lparr>event = (if event_type claudeEvent = ''content_block_start''
                 \<or> event_type claudeEvent = ''content_block_delta''
               then ''content_block_delta'' else ''message_delta''),
      data = EventData claudeEvent\<rparr>"

definition message_stop_frame :: "bool \<Rightarrow> sse_frame" where
  "message_stop_frame flag = \<lparr>event = ''message_stop'', data = MessageStop flag\<rparr>"

text \<open>
  Lines 436-458, the body of the loop over the lines. \<^verbatim>\<open>JSON.parse\<close> is the parameter
  \<open>parse\<close>: \<open>None\<close> when it throws (or yields \<^verbatim>\<open>null\<close>, on which the next property read
  throws). Every exception of the inner try block is caught at line 454 and the line is
  skipped.
\<close>

definition process_line ::
    "(nat \<Rightarrow> bool) \<Rightarrow> (string \<Rightarrow> openai_chunk option) \<Rightarrow> string \<Rightarrow> stream_state \<Rightarrow> stream_state" where
  "process_line accepts parse line s =
     (if take 6 (trim line) = ''data: '' then
        (let dataStr = trim (drop 5 (trim line)) in
         if dataStr = ''[DONE]'' then s
         else
           (case parse dataStr of
              None \<Rightarrow> s
            | Some openaiChunk \<Rightarrow>
                (case convertOpenAIStreamToClaude openaiChunk of
                   Inl err \<Rightarrow> s
                 | Inr None \<Rightarrow> s
                 | Inr (Some claudeEvent) \<Rightarrow>
                     if \<not> streamClosed s then
                       (let s1 =
                              (if event_type claudeEvent = ''content_block_start''
                                  \<and> \<not> toolCallStarted s
                               then (safeEnqueue accepts (message_start_frame openaiChunk) s)
                                      \<lparr>toolCallStarted := True\<rparr>
                               else s)
                        in if \<not> streamClosed s1
                           then safeEnqueue accepts (event_frame claudeEvent) s1
                           else s1)
                     else s)))
      else s)"

text \<open>Lines 433-459: the loop over the lines stops as soon as the stream is closed.\<close>

fun process_lines ::
    "(nat \<Rightarrow> bool) \<Rightarrow> (string \<Rightarrow> openai_chunk option) \<Rightarrow> string list \<Rightarrow> stream_state \<Rightarrow> stream_state" where
  "process_lines accepts parse [] s = s"
| "process_lines accepts parse (line # lines) s =
     (if streamClosed s then s
      else process_lines accepts parse lines (process_line accepts parse line s))"

text \<open>
  Lines 429-431 and the loop: the chunk is appended to the buffer, the buffer is split,
  its last piece stays in the buffer and the others are processed.
\<close>

definition process_chunk ::
    "(nat \<Rightarrow> bool) \<Rightarrow> (string \<Rightarrow> openai_chunk option) \<Rightarrow> string \<Rightarrow> stream_state \<Rightarrow> stream_state" where
  "process_chunk accepts parse chunk s =
     (let lines = js_split (CHR 0x0A) (buffer s @ chunk) in
      process_lines accepts parse (butlast lines)
        (s\<lparr>buffer := (case lines of [] \<Rightarrow> [] | l # ls \<Rightarrow> last lines)\<rparr>))"

text \<open>
  The source: the chunks \<^verbatim>\<open>reader.read()\<close> delivers, and how it ends: it reports
  \<^verbatim>\<open>done\<close>, or a read rejects. The loop \<^verbatim>\<open>while (true)\<close> of lines 425-462 leaves by the
  \<^verbatim>\<open>break\<close> on \<^verbatim>\<open>done\<close>, by the \<^verbatim>\<open>break\<close> on a closed stream, or by the exception.
\<close>

datatype source_end = Done | ReadFails string

datatype loop_exit = SawDone | Broke | Raised js_error

fun read_loop ::
    "(nat \<Rightarrow> bool) \<Rightarrow> (string \<Rightarrow> openai_chunk option) \<Rightarrow> string list \<Rightarrow> source_end \<Rightarrow>
     stream_state \<Rightarrow> loop_exit \<times> stream_state" where
  "read_loop accepts parse [] Done s = (SawDone, s)"
| "read_loop accepts parse [] (ReadFails msg) s = (Raised (NetworkError msg), s)"
| "read_loop accepts parse (chunk # chunks) e s =
     (let s1 = process_chunk accepts parse chunk s in
      if streamClosed s1 then (Broke, s1) else read_loop accepts parse chunks e s1)"

text \<open>
  What an exchange leaves behind: the frames the output accepted, whether the reader
  reported \<^verbatim>\<open>done\<close>, whether \<^verbatim>\<open>controller.close()\<close> was called (line 482, only when no
  enqueue failed and nothing was raised), and the error passed to
  \<^verbatim>\<open>controller.error\<close> (line 473), if any.
\<close>

record exchange =
  frames :: "sse_frame list"
  exhausted :: bool
  controller_closed :: bool
  controller_error :: "js_error option"

definition start ::
    "(nat \<Rightarrow> bool) \<Rightarrow> (string \<Rightarrow> openai_chunk option) \<Rightarrow> string list \<Rightarrow> source_end \<Rightarrow> exchange" where
  "start accepts parse chunks e =
     (case read_loop accepts parse chunks e
             \<lparr>buffer = [], toolCallStarted = False, streamClosed = False, enqueued = []\<rparr> of
        (Raised err, s) \<Rightarrow>
          \<lparr>frames = enqueued s, exhausted = False, controller_closed = False,
           controller_error = (if \<not> streamClosed s then Some err else None)\<rparr>
      | (ex, s) \<Rightarrow>
          (let s1 = (if \<not> streamClosed s
                     then safeEnqueue accepts (message_stop_frame (toolCallStarted s)) s
                     else s)
           in \<lparr>frames = enqueued s1, exhausted = (ex = SawDone),
               controller_closed = (\<not> streamClosed s1), controller_error = None\<rparr>))"

text \<open>
  Properties of the frames written: a \<^verbatim>\<open>message_start\<close> frame; a frame whose payload
  is the start of a tool-use block; every start of a block has a \<^verbatim>\<open>message_start\<close>
  frame before it. \<open>stream_inv\<close> is the invariant of the handler's state that the
  proofs carry through the loops.
\<close>

definition is_message_start :: "sse_frame \<Rightarrow> bool" where
  "is_message_start f = (event f = ''message_start'')"

definition is_block_start :: "sse_frame \<Rightarrow> bool" where
  "is_block_start f = (case data f of EventData (ContentBlockStart i tid fname) \<Rightarrow> True | _ \<Rightarrow> False)"

definition starts_follow :: "sse_frame list \<Rightarrow> bool" where
  "starts_follow fs \<longleftrightarrow>
     (\<forall>xs f ys. fs = xs @ f # ys \<and> is_block_start f \<longrightarrow> (\<exists>m\<in>set xs. is_message_start m))"

definition stream_inv :: "stream_state \<Rightarrow> bool" where
  "stream_inv s \<longleftrightarrow>
     starts_follow (enqueued s)
   \<and> (\<forall>f\<in>set (enqueued s). event f \<noteq> ''message_stop'')
   \<and> length (filter is_message_start (enqueued s)) \<le> 1
   \<and> (\<not> toolCallStarted s \<longrightarrow> (\<forall>f\<in>set (enqueued s). \<not> is_message_start f \<and> \<not> is_block_start f))
   \<and> (toolCallStarted s \<and> \<not> streamClosed s \<longrightarrow>
        (\<exists>f\<in>set (enqueued s). is_message_start f) \<and> (\<exists>f\<in>set (enqueued s). is_block_start f))"

text \<open>
  Example frames of an upstream stream, and \<^verbatim>\<open>JSON.parse\<close> on their payloads (every other
  text is taken not to parse).
\<close>

definition text_payload :: string where
  \<open>text_payload = ''{"id":"c1","model":"m","choices":[{"delta":{"content":"Hi"}}]}''\<close>

definition tool_start_payload :: string where
  \<open>tool_start_payload =
     ''{"id":"c1","model":"m","choices":[{"delta":{"tool_calls":[{"index":0,"id":"X","function":{"name":"f","arguments":""}}]}}]}''\<close>

definition arguments_payload :: string where
  \<open>arguments_payload =
     ''{"id":"c1","model":"m","choices":[{"delta":{"tool_calls":[{"index":0,"function":{"arguments":"[1]"}}]}}]}''\<close>

definition example_parse :: "string \<Rightarrow> openai_chunk option" where
  "example_parse dataStr =
     (if dataStr = text_payload then
        Some \<lparr>chunk_id = Some ''c1'', chunk_model = Some ''m'',
              chunk_choices = Some [\<lparr>delta = Some \<lparr>delta_content = Some ''Hi'',
                                                   delta_tool_calls = None\<rparr>\<rparr>]\<rparr>
      else if dataStr = tool_start_payload then
        Some \<lparr>chunk_id = Some ''c1'', chunk_model = Some ''m'',
              chunk_choices = Some [\<lparr>delta = Some \<lparr>delta_content = None,
                delta_tool_calls = Some [\<lparr>frag_index = Some 0, frag_id = Some ''X'',
                  frag_function = Some \<lparr>frag_name = Some ''f'', frag_arguments = Some []\<rparr>\<rparr>]\<rparr>\<rparr>]\<rparr>
      else if dataStr = arguments_payload then
        Some \<lparr>chunk_id = Some ''c1'', chunk_model = Some ''m'',
              chunk_choices = Some [\<lparr>delta = Some \<lparr>delta_content = None,
                delta_tool_calls = Some [\<lparr>frag_index = Some 0, frag_id = None,
                  frag_function = Some \<lparr>frag_name = None, frag_arguments = Some ''[1]''\<rparr>\<rparr>]\<rparr>\<rparr>]\<rparr>
      else None)"

section \<open>Round-robin selection without failures\<close>

lemma availableKeys_no_failures: "failedKeys m = [] \<Longrightarrow> availableKeys now m = keys m"
  by (simp add: availableKeys_def has_def)

lemma getKey_no_failures:
  assumes "failedKeys m = []"
  shows "getKey now m =
    (Inr (if keys m = [] then None else Some (keys m ! (currentIndex m mod length (keys m)))),
     m\<lparr>failedKeys := [], currentIndex := currentIndex m + 1\<rparr>)"
  using assms by (simp add: getKey_def Let_def availableKeys_no_failures)

lemma getKeys_no_failures:
  assumes "failedKeys m = []" and "keys m \<noteq> []"
  shows "fst (getKeys ts m) =
    map (\<lambda>j. Inr (Some (keys m ! ((currentIndex m + j) mod length (keys m))))) [0..<length ts]"
  using assms
proof (induction ts arbitrary: m)
  case Nil
  then show ?case by simp
next
  case (Cons now ts)
  let ?m1 = "m\<lparr>failedKeys := [], currentIndex := currentIndex m + 1\<rparr>"
  have step: "getKey now m = (Inr (Some (keys m ! (currentIndex m mod length (keys m)))), ?m1)"
    using Cons.prems by (simp add: getKey_no_failures)
  have ih: "fst (getKeys ts ?m1) =
      map (\<lambda>j. Inr (Some (keys m ! ((currentIndex m + 1 + j) mod length (keys m))))) [0..<length ts]"
    using Cons.IH [of ?m1] Cons.prems by simp
  have shift: "[0..<length (now # ts)] = 0 # map Suc [0..<length ts]"
    by (simp add: upt_conv_Cons map_Suc_upt del: upt_Suc)
  show ?case
    unfolding shift using step ih
    by (simp add: split_beta o_def)
qed

lemma rotation_as_map:
  assumes "xs \<noteq> []"
  shows "map (\<lambda>j. xs ! ((c + j) mod length xs)) [0..<length xs] = rotate c xs"
  by (rule nth_equalityI) (simp_all add: nth_rotate)

lemma mset_rotate_eq: "mset (rotate c xs) = mset xs"
proof -
  let ?k = "c mod length xs"
  have parts: "mset (take ?k xs) + mset (drop ?k xs) = mset xs"
    by (simp flip: mset_append)
  have "mset (rotate c xs) = mset (drop ?k xs) + mset (take ?k xs)"
    by (simp add: rotate_drop_take)
  with parts show ?thesis by (simp only: add.commute)
qed

text \<open>
  C5. With no failure recorded and no key marked failed between the calls, \<open>n\<close>
  consecutive calls of \<^verbatim>\<open>getKey\<close> on a pool of \<open>n\<close> keys, from any cursor position,
  return (none of them throws) the keys in rotated configuration order: every
  configured entry is returned exactly once (the results are a permutation of the
  configured list), so when the configured keys are pairwise distinct no key is
  returned twice and every key is returned.
\<close>

theorem round_robin_visits_every_key:
  assumes "failedKeys m = []" and "length ts = length (keys m)"
  shows "fst (getKeys ts m) = map (\<lambda>k. Inr (Some k)) (rotate (currentIndex m) (keys m))
       \<and> mset (fst (getKeys ts m)) = mset (map (\<lambda>k. Inr (Some k)) (keys m))
       \<and> (distinct (keys m) \<longrightarrow>
            distinct (fst (getKeys ts m))
            \<and> set (fst (getKeys ts m)) = (\<lambda>k. Inr (Some k)) ` set (keys m))"
proof (cases "keys m = []")
  case True
  with assms show ?thesis by simp
next
  case False
  have "fst (getKeys ts m) =
      map (\<lambda>j. Inr (Some (keys m ! ((currentIndex m + j) mod length (keys m)))))
        [0..<length (keys m)]"
    using getKeys_no_failures [OF assms(1) False, of ts] assms(2) by simp
  also have "\<dots> = map (\<lambda>k. Inr (Some k))
      (map (\<lambda>j. keys m ! ((currentIndex m + j) mod length (keys m))) [0..<length (keys m)])"
    by simp
  also have "\<dots> = map (\<lambda>k. Inr (Some k)) (rotate (currentIndex m) (keys m))"
    using rotation_as_map [OF False] by simp
  finally have eq: "fst (getKeys ts m) =
      map (\<lambda>k. Inr (Some k)) (rotate (currentIndex m) (keys m))" .
  have inj: "inj_on (\<lambda>k. (Inr (Some k) :: js_error + string option)) A" for A
    by (simp add: inj_on_def)
  show ?thesis
    using eq by (simp add: distinct_map mset_rotate_eq inj)
qed

theorem round_robin_visits_every_key_witness:
  "fst (getKeys [0, 5, 7] (new_ApiKeyManager [''k1'', ''k2'', ''k3''])) =
     [Inr (Some ''k1''), Inr (Some ''k2''), Inr (Some ''k3'')]"
  using round_robin_visits_every_key
    [of "new_ApiKeyManager [''k1'', ''k2'', ''k3'']" "[0, 5, 7]"]
  by (simp add: new_ApiKeyManager_def)

section \<open>Failed keys and the recovery window\<close>

lemma has_map_of: "has fk key \<longleftrightarrow> map_of fk key \<noteq> None"
  by (simp add: has_def map_of_eq_None_iff)

lemma purge_keeps:
  assumes "map_of fk key = Some t'" and "now - t' \<le> FAILURE_TIMEOUT"
  shows "map_of (snd (purge now fk)) key = Some t'"
  using assms
proof (induction now fk rule: purge.induct)
  case (1 now)
  then show ?case by simp
next
  case (2 now key' failTime entries)
  show ?case
  proof (cases "now - failTime > FAILURE_TIMEOUT")
    case True
    with "2.prems" have ne: "key' \<noteq> key" by auto
    with "2.prems" have rest: "map_of entries key = Some t'" by simp
    show ?thesis
    proof (cases key')
      case None
      with True rest show ?thesis by simp
    next
      case (Some k)
      with True "2.IH"(1) [OF True Some rest "2.prems"(2)] show ?thesis by simp
    qed
  next
    case False
    show ?thesis
    proof (cases "key' = key")
      case True
      with False "2.prems" show ?thesis by (simp add: split_beta)
    next
      case ne: False
      with "2.prems" have rest: "map_of entries key = Some t'" by simp
      from "2.IH"(2) [OF False rest "2.prems"(2)] False ne show ?thesis
        by (simp add: split_beta)
    qed
  qed
qed

lemma failedKeys_markKeyAsFailed:
  "map_of (failedKeys (snd (markKeyAsFailed now key err m))) =
     (map_of (failedKeys m))(key \<mapsto> now)"
  by (simp add: markKeyAsFailed_def Let_def update_conv' split: option.splits)

lemma keys_markKeyAsFailed: "keys (snd (markKeyAsFailed now key err m)) = keys m"
  by (simp add: markKeyAsFailed_def Let_def split: option.splits)

lemma currentIndex_markKeyAsFailed:
  "currentIndex (snd (markKeyAsFailed now key err m)) = currentIndex m"
  by (simp add: markKeyAsFailed_def Let_def split: option.splits)

lemma failed_not_available:
  assumes "map_of (failedKeys m) (Some c) = Some t'" and "now - t' \<le> FAILURE_TIMEOUT"
  shows "c \<notin> set (availableKeys now m)"
  using purge_keeps [OF assms] by (simp add: availableKeys_def has_map_of)

lemma getKey_throws:
  assumes "fst (purge now (failedKeys m)) = Some err"
  shows "getKey now m = (Inl err, m\<lparr>failedKeys := snd (purge now (failedKeys m))\<rparr>)"
  using assms by (simp add: getKey_def)

lemma getKey_available:
  assumes "fst (purge now (failedKeys m)) = None" and "availableKeys now m \<noteq> []"
  shows "getKey now m =
    (Inr (Some (availableKeys now m ! (currentIndex m mod length (availableKeys now m)))),
     m\<lparr>failedKeys := snd (purge now (failedKeys m)), currentIndex := currentIndex m + 1\<rparr>)"
  using assms by (simp add: getKey_def Let_def)

lemma getKey_returns_available:
  assumes "availableKeys now m \<noteq> []" and "fst (getKey now m) = Inr (Some k)"
  shows "k \<in> set (availableKeys now m)"
proof (cases "fst (purge now (failedKeys m))")
  case (Some err)
  with assms(2) show ?thesis by (simp add: getKey_throws)
next
  case None
  have "currentIndex m mod length (availableKeys now m) < length (availableKeys now m)"
    using assms(1) by simp
  then have "availableKeys now m ! (currentIndex m mod length (availableKeys now m))
      \<in> set (availableKeys now m)"
    by (rule nth_mem)
  with assms show ?thesis by (simp add: getKey_available [OF None])
qed

lemma failed_since_mark: "failed_since c t (snd (markKeyAsFailed t (Some c) err m))"
  by (simp add: failed_since_def failedKeys_markKeyAsFailed)

lemma failed_since_remark:
  assumes "failed_since c t m" and "t \<le> now"
  shows "failed_since c t (snd (markKeyAsFailed now (Some k) err m))"
  using assms by (simp add: failed_since_def failedKeys_markKeyAsFailed)

lemma failed_since_getKey:
  assumes "failed_since c t m" and "now - t \<le> FAILURE_TIMEOUT"
    and "fst (purge now (failedKeys m)) \<noteq> None \<or> availableKeys now m \<noteq> []"
  shows "failed_since c t (snd (getKey now m))" and "fst (getKey now m) \<noteq> Inr (Some c)"
proof -
  from assms(1) obtain t' where t': "map_of (failedKeys m) (Some c) = Some t'" "t \<le> t'"
    by (auto simp: failed_since_def split: option.splits)
  with assms(2) have win: "now - t' \<le> FAILURE_TIMEOUT" by simp
  note kept = purge_keeps [OF t'(1) win]
  show "failed_since c t (snd (getKey now m))"
  proof (cases "fst (purge now (failedKeys m))")
    case (Some err)
    with kept t'(2) show ?thesis by (simp add: getKey_throws failed_since_def)
  next
    case None
    with assms(3) have "availableKeys now m \<noteq> []" by simp
    with kept t'(2) None show ?thesis by (simp add: getKey_available failed_since_def)
  qed
  show "fst (getKey now m) \<noteq> Inr (Some c)"
  proof (cases "fst (purge now (failedKeys m))")
    case (Some err)
    then show ?thesis by (simp add: getKey_throws)
  next
    case None
    with assms(3) have ne: "availableKeys now m \<noteq> []" by simp
    from failed_not_available [OF t'(1) win] getKey_returns_available [OF ne]
    show ?thesis by blast
  qed
qed

lemma getKey_result_cases:
  obtains (threw) err where "fst (getKey now m) = Inl err" and "fst (purge now (failedKeys m)) = Some err"
  | (returned) key where "fst (getKey now m) = Inr key" and "fst (purge now (failedKeys m)) = None"
proof (cases "fst (purge now (failedKeys m))")
  case None
  then have "\<exists>key. fst (getKey now m) = Inr key"
    by (simp add: getKey_def Let_def)
  then obtain key where "fst (getKey now m) = Inr key" ..
  with None show ?thesis by (rule returned [rotated])
next
  case (Some err)
  then have "fst (getKey now m) = Inl err" by (simp add: getKey_throws)
  with Some show ?thesis by (rule threw [rotated])
qed

lemma no_return_before_reset:
  assumes "failed_since c t m"
    and "\<forall>call \<in> set cs. t \<le> time_of call \<and> time_of call - t \<le> FAILURE_TIMEOUT"
    and "i < length (fst (run_calls cs m))"
    and "returned (fst (run_calls cs m) ! i) = Inr (Some c)"
  shows "\<exists>j\<le>i. available (fst (run_calls cs m) ! j) = Some []"
  using assms
proof (induction cs m arbitrary: i rule: run_calls.induct)
  case (1 m)
  then show ?case by simp
next
  case (2 now cs m)
  obtain k m1 where g: "getKey now m = (k, m1)" by (cases "getKey now m")
  obtain sels m2 where r: "run_calls cs m1 = (sels, m2)" by (cases "run_calls cs m1")
  let ?av = "case k of Inl err \<Rightarrow> None | Inr key \<Rightarrow> Some (availableKeys now m)"
  have run: "fst (run_calls (GetKey now # cs) m) = \<lparr>returned = k, available = ?av\<rparr> # sels"
    using g r by simp
  show ?case
  proof (cases "?av = Some []")
    case True
    then show ?thesis unfolding run by (intro exI [of _ 0]) simp
  next
    case False
    have cond: "fst (purge now (failedKeys m)) \<noteq> None \<or> availableKeys now m \<noteq> []"
    proof (cases rule: getKey_result_cases [of now m])
      case (threw err)
      then show ?thesis by simp
    next
      case (returned key)
      with g False show ?thesis by simp
    qed
    from "2.prems"(2) have win: "now - t \<le> FAILURE_TIMEOUT" by simp
    from failed_since_getKey [OF "2.prems"(1) win cond] g
    have inv: "failed_since c t m1" and ne: "k \<noteq> Inr (Some c)" by simp_all
    from "2.prems"(4) ne obtain i' where i': "i = Suc i'"
      unfolding run by (cases i) simp_all
    have "\<exists>j\<le>i'. available (fst (run_calls cs m1) ! j) = Some []"
    proof (rule "2.IH" [OF g [symmetric] inv])
      show "\<forall>call \<in> set cs. t \<le> time_of call \<and> time_of call - t \<le> FAILURE_TIMEOUT"
        using "2.prems"(2) by simp
      show "i' < length (fst (run_calls cs m1))"
        using "2.prems"(3) unfolding run i' by (simp add: r)
      show "returned (fst (run_calls cs m1) ! i') = Inr (Some c)"
        using "2.prems"(4) unfolding run i' by (simp add: r)
    qed
    then obtain j where "j \<le> i'" "available (sels ! j) = Some []" by (auto simp: r)
    then show ?thesis unfolding run i' by (intro exI [of _ "Suc j"]) simp
  qed
next
  case (3 k now cs m)
  let ?m1 = "snd (markKeyAsFailed now (Some k) None m)"
  from "3.prems"(2) have "t \<le> now" by simp
  from failed_since_remark [OF "3.prems"(1) this]
  have inv: "failed_since c t ?m1" .
  show ?case
    using "3.IH" [OF inv, of i] "3.prems"(2,3,4) by simp
qed

text \<open>
  C3, as the code has it. After \<^verbatim>\<open>markKeyAsFailed(c)\<close> at time \<open>t\<close>, in any sequence of
  \<^verbatim>\<open>getKey\<close> and \<^verbatim>\<open>markKeyAsFailed\<close> calls made at times from \<open>t\<close> to \<open>t + 60000\<close>, a
  \<^verbatim>\<open>getKey\<close> call returns \<open>c\<close> only if that call or an earlier one of the sequence
  found no available key at all, which is the forced fallback that clears every failure
  record, the one of \<open>c\<close> included.
\<close>

theorem marked_key_returned_only_after_full_reset:
  assumes "\<forall>call \<in> set cs. t \<le> time_of call \<and> time_of call - t \<le> FAILURE_TIMEOUT"
    and "sels = fst (run_calls (MarkKeyAsFailed c t # cs) m)"
    and "i < length sels"
    and "returned (sels ! i) = Inr (Some c)"
  shows "\<exists>j\<le>i. available (sels ! j) = Some []"
proof -
  let ?m1 = "snd (markKeyAsFailed t (Some c) None m)"
  have sels: "sels = fst (run_calls cs ?m1)"
    using assms(2) by simp
  show ?thesis
    using no_return_before_reset [OF failed_since_mark assms(1), of i c None m] assms(3,4)
    unfolding sels by simp
qed

theorem marked_key_returned_only_after_full_reset_witness:
  "returned (fst (run_calls [MarkKeyAsFailed ''a'' 0, MarkKeyAsFailed ''b'' 5, GetKey 10, GetKey 20]
       (new_ApiKeyManager [''a'', ''b''])) ! 0) = Inr (Some ''a'')
   \<and> (\<exists>j\<le>0. available (fst (run_calls
         [MarkKeyAsFailed ''a'' 0, MarkKeyAsFailed ''b'' 5, GetKey 10, GetKey 20]
         (new_ApiKeyManager [''a'', ''b''])) ! j) = Some [])"
proof -
  let ?cs = "[MarkKeyAsFailed ''b'' 5, GetKey 10, GetKey 20]"
  let ?sels = "fst (run_calls (MarkKeyAsFailed ''a'' 0 # ?cs) (new_ApiKeyManager [''a'', ''b'']))"
  have ev: "?sels = [\<lparr>returned = Inr (Some ''a''), available = Some []\<rparr>,
      \<lparr>returned = Inr (Some ''b''), available = Some [''a'', ''b'']\<rparr>]"
    by code_simp
  have win: "\<forall>call \<in> set ?cs. 0 \<le> time_of call \<and> time_of call - 0 \<le> FAILURE_TIMEOUT"
    by (simp add: FAILURE_TIMEOUT_def)
  have len: "0 < length ?sels" and ret: "returned (?sels ! 0) = Inr (Some ''a'')"
    unfolding ev by simp_all
  from marked_key_returned_only_after_full_reset [OF win refl len ret] ret
  show ?thesis by simp
qed

text \<open>
  C3 as stated fails. Pool \<open>[a, b]\<close>; \<open>b\<close> is marked failed at time 0 and \<open>a\<close> at
  time 50000. The call at time 55000 finds no available key, clears the failure map and
  returns \<open>a\<close>. The call at time 80000 returns \<open>a\<close> again, 30 seconds after \<open>a\<close> was
  marked failed, although \<open>b\<close> is available at that moment: the only failure of \<open>b\<close>
  is 80 seconds old, and its record was cleared together with the one of \<open>a\<close>.
\<close>

theorem marked_key_returned_within_window_counterexample:
  "fst (run_calls
       [MarkKeyAsFailed ''b'' 0, MarkKeyAsFailed ''a'' 50000, GetKey 55000, GetKey 70000,
        GetKey 80000]
       (new_ApiKeyManager [''a'', ''b''])) =
     [\<lparr>returned = Inr (Some ''a''), available = Some []\<rparr>,
      \<lparr>returned = Inr (Some ''b''), available = Some [''a'', ''b'']\<rparr>,
      \<lparr>returned = Inr (Some ''a''), available = Some [''a'', ''b'']\<rparr>]"
  by code_simp

section \<open>Consecutive selections\<close>






section \<open>Failure classification and exhausted retries\<close>

lemma keys_getKey: "keys (snd (getKey now m)) = keys m"
  by (simp add: getKey_def Let_def split: option.splits)

lemma fst_purge:
  "fst (purge now fk) =
     (if \<exists>t. (None, t) \<in> set fk \<and> now - t > FAILURE_TIMEOUT
      then Some substring_of_undefined else None)"
proof (induction now fk rule: purge.induct)
  case (1 now)
  then show ?case by simp
next
  case (2 now key failTime entries)
  show ?case
  proof (cases "now - failTime > FAILURE_TIMEOUT")
    case True
    show ?thesis
    proof (cases key)
      case None
      with True show ?thesis by auto
    next
      case (Some k)
      with True "2.IH"(1) [OF True Some] show ?thesis by auto
    qed
  next
    case False
    with "2.IH"(2) [OF False] show ?thesis by (auto simp: split_beta)
  qed
qed

lemma set_purge: "set (snd (purge now fk)) \<subseteq> set fk"
  by (induction now fk rule: purge.induct) (auto simp: split_beta split: option.splits)


lemma getKey_nonempty_pool:
  assumes "keys m \<noteq> []" and "None \<notin> fst ` set (failedKeys m)"
  shows "\<exists>k. fst (getKey now m) = Inr (Some k)"
proof -
  have "fst (purge now (failedKeys m)) = None"
    using assms(2) by (force simp: fst_purge)
  with assms(1) show ?thesis by (simp add: getKey_def Let_def)
qed

lemma getKey_no_undefined_record:
  assumes "None \<notin> fst ` set (failedKeys m)"
  shows "None \<notin> fst ` set (failedKeys (snd (getKey now m)))"
proof -
  have "None \<notin> fst ` set (snd (purge now (failedKeys m)))"
    using assms set_purge [of now "failedKeys m"] by auto
  then show ?thesis
    by (simp add: getKey_def Let_def split: option.splits)
qed

lemma markKeyAsFailed_no_undefined_record:
  assumes "None \<notin> fst ` set (failedKeys m)"
  shows "None \<notin> fst ` set (failedKeys (snd (markKeyAsFailed now (Some k) err m)))"
  using assms by (simp add: markKeyAsFailed_def Let_def dom_update)

lemma mark_Some:
  "mark now (Some k) reason w =
     (None, w\<lparr>keyManager := snd (markKeyAsFailed now (Some k) (Some reason) (keyManager w)),
              console := console w @ [''Marked key as failed: '' @ take 8 k @ ''... Error: '' @
                (if reason = [] then ''Unknown'' else reason)]\<rparr>)"
  by (simp add: mark_def markKeyAsFailed_def Let_def)


text \<open>The statuses for which \<^verbatim>\<open>new Response\<close> builds the error response.\<close>

lemma new_Response_built:
  assumes "200 \<le> st" and "st \<le> 599" and "\<not> null_body_status st"
  shows "new_Response b st hs = Inr \<lparr>status = st, headers = hs, body = b\<rparr>"
  using assms by (auto simp: new_Response_def)

lemma attempt_body_rejected:
  assumes "getKey (select_time e) (keyManager w) = (Inr (Some k), m1)" and "fetched e = Rejected msg"
  shows "attempt_body e maxRetries attempt w =
    (if attempt = maxRetries then Finished (Thrown (NetworkError msg)) else NextAttempt msg,
     w\<lparr>keyManager := snd (markKeyAsFailed (mark_time e) (Some k) (Some msg) m1),
       issued := issued w @ [''Bearer '' @ k],
       console := console w @ [''Marked key as failed: '' @ take 8 k @ ''... Error: '' @
                (if msg = [] then ''Unknown'' else msg)]\<rparr>)"
  using assms
  by (simp add: attempt_body_def try_block_def catch_block_def mark_Some Let_def)

lemma attempt_body_ok:
  assumes "getKey (select_time e) (keyManager w) = (Inr (Some k), m1)"
    and "fetched e = Responded r" and "ok r"
  shows "attempt_body e maxRetries attempt w =
    (Finished (Returned r), w\<lparr>keyManager := m1, issued := issued w @ [''Bearer '' @ k]\<rparr>)"
  using assms
  by (simp add: attempt_body_def try_block_def Let_def)

lemma attempt_body_unauthorized:
  assumes "getKey (select_time e) (keyManager w) = (Inr (Some k), m1)"
    and "fetched e = Responded r" and "status r = 401 \<or> status r = 403"
  shows "attempt_body e maxRetries attempt w =
    (if attempt = maxRetries then
       Finished (Returned \<lparr>status = status r,
         headers = [(''Access-Control-Allow-Origin'', ''*''), (''Content-Type'', ''application/json'')],
         body = body r\<rparr>)
     else NextAttempt (''HTTP '' @ dec (status r) @ '': '' @ body r),
     w\<lparr>keyManager := snd (markKeyAsFailed (mark_time e) (Some k) (Some (''HTTP '' @ dec (status r))) m1),
       issued := issued w @ [''Bearer '' @ k],
       console := console w @ [''Marked key as failed: '' @ take 8 k @ ''... Error: '' @
                ''HTTP '' @ dec (status r)]\<rparr>)"
proof -
  have nok: "\<not> ok r" using assms(3) by (auto simp: ok_def)
  have built: "new_Response b (status r) hs = Inr \<lparr>status = status r, headers = hs, body = b\<rparr>"
    for b hs
    using assms(3) by (intro new_Response_built) (auto simp: null_body_status_def)
  show ?thesis
    using assms nok
    by (auto simp add: attempt_body_def try_block_def mark_Some Let_def built)
qed

lemma attempt_body_other_error:
  assumes "getKey (select_time e) (keyManager w) = (Inr (Some k), m1)"
    and "fetched e = Responded r" and "\<not> ok r" and "status r \<noteq> 401" and "status r \<noteq> 403"
    and "attempt \<noteq> maxRetries \<or> (200 \<le> status r \<and> status r \<le> 599 \<and> \<not> null_body_status (status r))"
  shows "attempt_body e maxRetries attempt w =
    (if attempt = maxRetries then
       Finished (Returned \<lparr>status = status r,
         headers = [(''Access-Control-Allow-Origin'', ''*''), (''Content-Type'', ''application/json'')],
         body = body r\<rparr>)
     else NextAttempt (''HTTP '' @ dec (status r) @ '': '' @ body r),
     w\<lparr>keyManager := m1, issued := issued w @ [''Bearer '' @ k]\<rparr>)"
proof (cases "attempt = maxRetries")
  case True
  with assms(6) have "new_Response b (status r) hs =
      Inr \<lparr>status = status r, headers = hs, body = b\<rparr>" for b hs
    by (intro new_Response_built) auto
  with True assms(1-5) show ?thesis
    by (simp add: attempt_body_def try_block_def Let_def)
next
  case False
  with assms(1-5) show ?thesis
    by (simp add: attempt_body_def try_block_def Let_def)
qed

lemma attempt_body_response_not_built:
  assumes "getKey (select_time e) (keyManager w) = (Inr (Some k), m1)"
    and "fetched e = Responded r" and "\<not> ok r" and "status r \<noteq> 401" and "status r \<noteq> 403"
    and "new_Response (body r) (status r)
           [(''Access-Control-Allow-Origin'', ''*''), (''Content-Type'', ''application/json'')] = Inl err"
  shows "attempt_body e maxRetries maxRetries w =
    (Finished (Thrown err),
     w\<lparr>keyManager := snd (markKeyAsFailed (mark_time e) (Some k) (Some (message err)) m1),
       issued := issued w @ [''Bearer '' @ k],
       console := console w @ [''Marked key as failed: '' @ take 8 k @ ''... Error: '' @
                (if message err = [] then ''Unknown'' else message err)]\<rparr>)"
  using assms
  by (simp add: attempt_body_def try_block_def catch_block_def mark_Some Let_def)


text \<open>
  One attempt that selected the key \<open>k\<close> (leaving the manager \<open>m1\<close>): a response with
  status 401 or 403 marks \<open>k\<close> failed, with reason \<^verbatim>\<open>HTTP <status>\<close>; a response with any
  other status leaves the manager as the selection left it, unless it is the last
  attempt and \<^verbatim>\<open>new Response\<close> rejects the status; a rejected request marks \<open>k\<close> failed
  with the error's message as the reason argument (the console line prints it, or
  \<^verbatim>\<open>Unknown\<close> for an empty message).
\<close>

lemma failure_classification:
  assumes "getKey (select_time e) (keyManager w) = (Inr (Some k), m1)"
  shows "(\<forall>r. fetched e = Responded r \<and> (status r = 401 \<or> status r = 403) \<longrightarrow>
            keyManager (snd (attempt_body e maxRetries attempt w)) =
              snd (markKeyAsFailed (mark_time e) (Some k) (Some (''HTTP '' @ dec (status r))) m1)
            \<and> map_of (failedKeys (keyManager (snd (attempt_body e maxRetries attempt w)))) (Some k) =
              Some (mark_time e))
       \<and> (\<forall>r. fetched e = Responded r \<and> status r \<noteq> 401 \<and> status r \<noteq> 403
              \<and> (attempt \<noteq> maxRetries \<or> ok r
                  \<or> (200 \<le> status r \<and> status r \<le> 599 \<and> \<not> null_body_status (status r))) \<longrightarrow>
            keyManager (snd (attempt_body e maxRetries attempt w)) = m1)
       \<and> (\<forall>msg. fetched e = Rejected msg \<longrightarrow>
            keyManager (snd (attempt_body e maxRetries attempt w)) =
              snd (markKeyAsFailed (mark_time e) (Some k) (Some msg) m1)
            \<and> map_of (failedKeys (keyManager (snd (attempt_body e maxRetries attempt w)))) (Some k) =
              Some (mark_time e)
            \<and> console (snd (attempt_body e maxRetries attempt w)) =
              console w @ [''Marked key as failed: '' @ take 8 k @ ''... Error: '' @
                (if msg = [] then ''Unknown'' else msg)])"
proof (intro conjI allI impI)
  fix r
  assume a: "fetched e = Responded r \<and> (status r = 401 \<or> status r = 403)"
  from a show "keyManager (snd (attempt_body e maxRetries attempt w)) =
      snd (markKeyAsFailed (mark_time e) (Some k) (Some (''HTTP '' @ dec (status r))) m1)"
    by (simp add: attempt_body_unauthorized [OF assms])
  then show "map_of (failedKeys (keyManager (snd (attempt_body e maxRetries attempt w)))) (Some k) =
      Some (mark_time e)"
    by (simp add: failedKeys_markKeyAsFailed)
next
  fix r
  assume a: "fetched e = Responded r \<and> status r \<noteq> 401 \<and> status r \<noteq> 403
      \<and> (attempt \<noteq> maxRetries \<or> ok r
          \<or> (200 \<le> status r \<and> status r \<le> 599 \<and> \<not> null_body_status (status r)))"
  show "keyManager (snd (attempt_body e maxRetries attempt w)) = m1"
  proof (cases "ok r")
    case True
    with a show ?thesis by (simp add: attempt_body_ok [OF assms])
  next
    case False
    with a have "attempt \<noteq> maxRetries
        \<or> (200 \<le> status r \<and> status r \<le> 599 \<and> \<not> null_body_status (status r))"
      by blast
    from attempt_body_other_error [OF assms _ False _ _ this] a
    show ?thesis by simp
  qed
next
  fix msg
  assume a: "fetched e = Rejected msg"
  then show m: "keyManager (snd (attempt_body e maxRetries attempt w)) =
      snd (markKeyAsFailed (mark_time e) (Some k) (Some msg) m1)"
    by (simp add: attempt_body_rejected [OF assms])
  then show "map_of (failedKeys (keyManager (snd (attempt_body e maxRetries attempt w)))) (Some k) =
      Some (mark_time e)"
    by (simp add: failedKeys_markKeyAsFailed)
  from a show "console (snd (attempt_body e maxRetries attempt w)) =
      console w @ [''Marked key as failed: '' @ take 8 k @ ''... Error: '' @
        (if msg = [] then ''Unknown'' else msg)]"
    by (simp add: attempt_body_rejected [OF assms])
qed

text \<open>
  C7 fails on the code for a last attempt whose response has a status that
  \<^verbatim>\<open>new Response\<close> rejects. Pool \<open>[k1, k2]\<close>, \<open>maxRetries = 3\<close>, third attempt, upstream
  answers 304 with an empty body: the status is neither 2xx nor 401 nor 403, yet the
  exception of \<^verbatim>\<open>new Response\<close> (line 224, inside the try block) is caught at line 233
  and the catch block marks the selected key \<open>k1\<close> failed.
\<close>

theorem not_modified_on_last_attempt_marks_key:
  "attempt_body
      \<lparr>select_time = 10, fetched = Responded \<lparr>status = 304, headers = [], body = []\<rparr>,
       mark_time = 20\<rparr> 3 3 (initial_state [''k1'', ''k2''])
     = (Finished (Thrown body_with_null_body_status),
        \<lparr>keyManager = \<lparr>keys = [''k1'', ''k2''], currentIndex = 1, failedKeys = [(Some ''k1'', 20)]\<rparr>,
         issued = [''Bearer k1''],
         console = [''Marked key as failed: k1... Error: Response with null body status cannot have body''],
         slept = []\<rparr>)"
  by code_simp

text \<open>
  The loop when no attempt gets an ok response, for a pool with at least one key and no
  record of the undefined key, and a last status that \<^verbatim>\<open>new Response\<close> accepts: the last
  response is returned with its status and body text, or the last rejection is thrown
  again.
\<close>

lemma attempt_body_invariants:
  assumes "keys (keyManager w) \<noteq> []" and "None \<notin> fst ` set (failedKeys (keyManager w))"
  shows "keys (keyManager (snd (attempt_body e maxRetries attempt w))) \<noteq> []"
    and "None \<notin> fst ` set (failedKeys (keyManager (snd (attempt_body e maxRetries attempt w))))"
proof -
  from getKey_nonempty_pool [OF assms, of "select_time e"]
  obtain k m1 where g: "getKey (select_time e) (keyManager w) = (Inr (Some k), m1)"
    by (cases "getKey (select_time e) (keyManager w)") auto
  have m1: "keys m1 \<noteq> []" "None \<notin> fst ` set (failedKeys m1)"
    using keys_getKey [of "select_time e" "keyManager w"]
      getKey_no_undefined_record [OF assms(2), of "select_time e"] g assms(1) by simp_all
  have marked: "keys (snd (markKeyAsFailed t (Some k) err m1)) \<noteq> []"
      "None \<notin> fst ` set (failedKeys (snd (markKeyAsFailed t (Some k) err m1)))" for t err
    using m1 by (simp_all add: keys_markKeyAsFailed markKeyAsFailed_no_undefined_record)
  have "keyManager (snd (attempt_body e maxRetries attempt w)) = m1
      \<or> (\<exists>t err. keyManager (snd (attempt_body e maxRetries attempt w)) =
            snd (markKeyAsFailed t (Some k) err m1))"
  proof (cases "fetched e")
    case (Rejected msg)
    then show ?thesis by (simp add: attempt_body_rejected [OF g]) blast
  next
    case (Responded r)
    show ?thesis
    proof (cases "ok r")
      case True
      then show ?thesis by (simp add: attempt_body_ok [OF g Responded])
    next
      case nok: False
      show ?thesis
      proof (cases "status r = 401 \<or> status r = 403")
        case True
        then show ?thesis by (simp add: attempt_body_unauthorized [OF g Responded]) blast
      next
        case other: False
        show ?thesis
        proof (cases "new_Response (body r) (status r)
            [(''Access-Control-Allow-Origin'', ''*''), (''Content-Type'', ''application/json'')]")
          case (Inr built)
          then have "200 \<le> status r \<and> status r \<le> 599 \<and> \<not> null_body_status (status r)"
            by (auto simp: new_Response_def null_body_status_def split: if_splits)
          then have "attempt \<noteq> maxRetries
              \<or> (200 \<le> status r \<and> status r \<le> 599 \<and> \<not> null_body_status (status r))" ..
          from attempt_body_other_error [OF g Responded nok _ _ this] other
          show ?thesis by simp
        next
          case (Inl err)
          show ?thesis
          proof (cases "attempt = maxRetries")
            case True
            from attempt_body_response_not_built [OF g Responded nok _ _ Inl, of maxRetries] other True
            show ?thesis by simp blast
          next
            case False
            then have "attempt \<noteq> maxRetries
              \<or> (200 \<le> status r \<and> status r \<le> 599 \<and> \<not> null_body_status (status r))" ..
            from attempt_body_other_error [OF g Responded nok _ _ this] other
            show ?thesis by simp
          qed
        qed
      qed
    qed
  qed
  then consider "keyManager (snd (attempt_body e maxRetries attempt w)) = m1"
    | t err where "keyManager (snd (attempt_body e maxRetries attempt w)) =
        snd (markKeyAsFailed t (Some k) err m1)"
    by blast
  then have "keys (keyManager (snd (attempt_body e maxRetries attempt w))) \<noteq> []
      \<and> None \<notin> fst ` set (failedKeys (keyManager (snd (attempt_body e maxRetries attempt w))))"
  proof cases
    case 1
    with m1 show ?thesis by simp
  next
    case 2
    with marked [of t err] show ?thesis by simp
  qed
  then show "keys (keyManager (snd (attempt_body e maxRetries attempt w))) \<noteq> []"
    and "None \<notin> fst ` set (failedKeys (keyManager (snd (attempt_body e maxRetries attempt w))))"
    by simp_all
qed

lemma attempt_body_failure:
  assumes "keys (keyManager w) \<noteq> []" and "None \<notin> fst ` set (failedKeys (keyManager w))"
    and "\<forall>r. fetched e = Responded r \<longrightarrow> \<not> ok r"
    and "attempt = maxRetries \<longrightarrow> (\<forall>r. fetched e = Responded r \<longrightarrow>
           200 \<le> status r \<and> status r \<le> 599 \<and> \<not> null_body_status (status r))"
  shows "fst (attempt_body e maxRetries attempt w) =
    (if attempt = maxRetries then Finished (last_failure (fetched e))
     else NextAttempt (case fetched e of
        Responded r \<Rightarrow> ''HTTP '' @ dec (status r) @ '': '' @ body r | Rejected msg \<Rightarrow> msg))"
proof -
  from getKey_nonempty_pool [OF assms(1,2), of "select_time e"]
  obtain k m1 where g: "getKey (select_time e) (keyManager w) = (Inr (Some k), m1)"
    by (cases "getKey (select_time e) (keyManager w)") auto
  show ?thesis
  proof (cases "fetched e")
    case (Rejected msg)
    then show ?thesis
      by (simp add: attempt_body_rejected [OF g] last_failure_def)
  next
    case (Responded r)
    with assms(3) have nok: "\<not> ok r" by simp
    show ?thesis
    proof (cases "status r = 401 \<or> status r = 403")
      case True
      then show ?thesis
        using Responded by (simp add: attempt_body_unauthorized [OF g Responded] last_failure_def)
    next
      case False
      from assms(4) Responded
      have "attempt \<noteq> maxRetries
          \<or> (200 \<le> status r \<and> status r \<le> 599 \<and> \<not> null_body_status (status r))"
        by blast
      from attempt_body_other_error [OF g Responded nok _ _ this] False
      show ?thesis
        using Responded by (simp add: last_failure_def)
    qed
  qed
qed

lemma retry_loop_exhausted:
  assumes "keys (keyManager w) \<noteq> []" and "None \<notin> fst ` set (failedKeys (keyManager w))"
    and "attempt \<le> maxRetries"
    and "\<forall>a. attempt \<le> a \<and> a \<le> maxRetries \<longrightarrow> (\<forall>r. fetched (env a) = Responded r \<longrightarrow> \<not> ok r)"
    and "\<forall>r. fetched (env maxRetries) = Responded r \<longrightarrow>
           200 \<le> status r \<and> status r \<le> 599 \<and> \<not> null_body_status (status r)"
  shows "fst (retry_loop env maxRetries attempt lastError w) = last_failure (fetched (env maxRetries))"
  using assms
proof (induction env maxRetries attempt lastError w rule: retry_loop.induct)
  case (1 env maxRetries attempt lastError w)
  have fails: "\<forall>r. fetched (env attempt) = Responded r \<longrightarrow> \<not> ok r"
    using "1.prems"(3,4) by blast
  have built: "attempt = maxRetries \<longrightarrow> (\<forall>r. fetched (env attempt) = Responded r \<longrightarrow>
           200 \<le> status r \<and> status r \<le> 599 \<and> \<not> null_body_status (status r))"
    using "1.prems"(5) by blast
  note body = attempt_body_failure [OF "1.prems"(1,2) fails built]
  obtain st w' where ab: "attempt_body (env attempt) maxRetries attempt w = (st, w')"
    by (cases "attempt_body (env attempt) maxRetries attempt w")
  show ?case
  proof (cases "attempt = maxRetries")
    case True
    with body ab have "st = Finished (last_failure (fetched (env maxRetries)))" by simp
    with ab "1.prems"(3) show ?thesis
      by (simp add: retry_loop.simps [of env maxRetries attempt])
  next
    case False
    with body ab obtain le where st: "st = NextAttempt le" by simp
    let ?w = "w'\<lparr>slept := slept w' @ [1000 * attempt]\<rparr>"
    from attempt_body_invariants [OF "1.prems"(1,2), of "env attempt" maxRetries attempt] ab
    have keys': "keys (keyManager ?w) \<noteq> []"
      and rec': "None \<notin> fst ` set (failedKeys (keyManager ?w))"
      by simp_all
    have "fst (retry_loop env maxRetries (attempt + 1) le ?w) = last_failure (fetched (env maxRetries))"
    proof (rule "1.IH" [OF "1.prems"(3) ab [symmetric] st keys' rec'])
      show "attempt + 1 \<le> maxRetries" using False "1.prems"(3) by simp
      show "\<forall>a. attempt + 1 \<le> a \<and> a \<le> maxRetries \<longrightarrow> (\<forall>r. fetched (env a) = Responded r \<longrightarrow> \<not> ok r)"
        using "1.prems"(4) by (meson Suc_leD Suc_eq_plus1 le_trans order_refl add_leD1)
      show "\<forall>r. fetched (env maxRetries) = Responded r \<longrightarrow>
           200 \<le> status r \<and> status r \<le> 599 \<and> \<not> null_body_status (status r)"
        using "1.prems"(5) .
    qed
    with ab st "1.prems"(3) show ?thesis
      by (simp add: retry_loop.simps [of env maxRetries attempt])
  qed
qed

lemma exhausted_retries_surface_last_failure:
  assumes "keys (keyManager w) \<noteq> []" and "None \<notin> fst ` set (failedKeys (keyManager w))"
    and "1 \<le> maxRetries"
    and "\<forall>a. 1 \<le> a \<and> a \<le> maxRetries \<longrightarrow> (\<forall>r. fetched (env a) = Responded r \<longrightarrow> \<not> ok r)"
    and "\<forall>r. fetched (env maxRetries) = Responded r \<longrightarrow>
           200 \<le> status r \<and> status r \<le> 599 \<and> \<not> null_body_status (status r)"
  shows "(\<forall>r. fetched (env maxRetries) = Responded r \<longrightarrow>
            fst (makeRequestWithRetry env maxRetries w) =
              Returned \<lparr>status = status r,
                headers = [(''Access-Control-Allow-Origin'', ''*''),
                           (''Content-Type'', ''application/json'')],
                body = body r\<rparr>)
       \<and> (\<forall>msg. fetched (env maxRetries) = Rejected msg \<longrightarrow>
            fst (makeRequestWithRetry env maxRetries w) = Thrown (NetworkError msg))"
  using retry_loop_exhausted [OF assms, of "[]"]
  by (simp add: makeRequestWithRetry_def last_failure_def)

text \<open>
  C8 fails on the code when the last upstream response has a status that
  \<^verbatim>\<open>new Response\<close> rejects. Pool \<open>[k1, k2]\<close>, three attempts, each answered with status
  304 and an empty body: in the third attempt \<^verbatim>\<open>new Response("", {status: 304})\<close> throws a
  TypeError inside the try block; the catch block marks the key failed and throws the
  TypeError to the caller, who gets no response with status 304.
\<close>

theorem not_modified_responses_end_in_type_error:
  "makeRequestWithRetry
      (\<lambda>a. \<lparr>select_time = 0, fetched = Responded \<lparr>status = 304, headers = [], body = []\<rparr>,
            mark_time = 7\<rparr>) 3 (initial_state [''k1'', ''k2''])
     = (Thrown body_with_null_body_status,
        \<lparr>keyManager = \<lparr>keys = [''k1'', ''k2''], currentIndex = 3, failedKeys = [(Some ''k1'', 7)]\<rparr>,
         issued = [''Bearer k1'', ''Bearer k2'', ''Bearer k1''],
         console = [''Marked key as failed: k1... Error: Response with null body status cannot have body''],
         slept = [1000, 2000]\<rparr>)"
  by code_simp

section \<open>The empty pool\<close>




section \<open>Generation parameters of the outbound request\<close>

lemma generation_parameters:
  "max_tokens_out (convertClaudeToOpenAI stringify r) =
     (case max_tokens r of None \<Rightarrow> 4096 | Some n \<Rightarrow> if n = 0 then 4096 else n)"
  "temperature_out (convertClaudeToOpenAI stringify r) =
     (case temperature r of None \<Rightarrow> 0.7 | Some t \<Rightarrow> if t = 0 then 0.7 else t)"
  "stream_out (convertClaudeToOpenAI stringify r) =
     (case stream r of None \<Rightarrow> False | Some b \<Rightarrow> b)"
  by (simp_all add: convertClaudeToOpenAI_def js_or_def Let_def split: option.splits)

text \<open>
  C6 fails on the code for a field that is present with a falsy value. The request
  \<^verbatim>\<open>{model: "claude-3-5-haiku-20241022", messages: [{role: "user", content: "hi"}],
  max_tokens: 1024, temperature: 0, stream: true}\<close> has the temperature 0; the outbound
  request has the temperature 0.7, because \<^verbatim>\<open>claudeRequest.temperature || 0.7\<close> takes the
  default for 0. The other two parameters of this request are carried through.
\<close>

theorem temperature_zero_becomes_default:
  "temperature_out (convertClaudeToOpenAI (\<lambda>c. [])
      \<lparr>model = ''claude-3-5-haiku-20241022'',
       messages = [\<lparr>role = ''user'', content = Text ''hi''\<rparr>],
       max_tokens = Some 1024, temperature = Some 0, stream = Some True,
       tools = None, tool_choice = None\<rparr>) = 0.7
   \<and> max_tokens_out (convertClaudeToOpenAI (\<lambda>c. [])
      \<lparr>model = ''claude-3-5-haiku-20241022'',
       messages = [\<lparr>role = ''user'', content = Text ''hi''\<rparr>],
       max_tokens = Some 1024, temperature = Some 0, stream = Some True,
       tools = None, tool_choice = None\<rparr>) = 1024
   \<and> stream_out (convertClaudeToOpenAI (\<lambda>c. [])
      \<lparr>model = ''claude-3-5-haiku-20241022'',
       messages = [\<lparr>role = ''user'', content = Text ''hi''\<rparr>],
       max_tokens = Some 1024, temperature = Some 0, stream = Some True,
       tools = None, tool_choice = None\<rparr>) = True"
  by (simp add: convertClaudeToOpenAI_def js_or_def Let_def)

section \<open>Text responses\<close>

text \<open>
  The text path of the conversion. For a response with a first choice whose message has
  no \<^verbatim>\<open>tool_calls\<close> property (the message or the property is missing or null), the
  conversion succeeds with exactly one text block holding the message's text (the empty
  string when the text is missing), and the stop reason is \<^verbatim>\<open>end_turn\<close> for the finish
  reason \<^verbatim>\<open>stop\<close> and the finish reason itself otherwise.
\<close>

lemma text_response_conversion:
  assumes "choices openaiResponse = Some (choice # others)"
    and "tool_calls_of choice = None"
  shows "\<exists>c. convertOpenAIToClaude parse now openaiResponse = Inr (Converted c)
       \<and> msg_content c = [TextBlock (case content_of choice of None \<Rightarrow> [] | Some t \<Rightarrow> t)]
       \<and> stop_reason c =
           (if finish_reason choice = Some ''stop'' then Some ''end_turn'' else finish_reason choice)"
  using assms
  by (auto simp add: convertOpenAIToClaude_def js_or_def split: option.splits)

text \<open>
  C9 fails on the code for a first choice that carries an empty list of tool
  invocations. The message \<^verbatim>\<open>{content: "Hello", tool_calls: []}\<close> with finish reason
  \<^verbatim>\<open>stop\<close> carries no tool invocation, but the empty array is truthy and passes the
  guard of line 255: the text is dropped, and the result is a message with no content
  block at all and the stop reason \<^verbatim>\<open>tool_use\<close>.
\<close>

theorem empty_tool_calls_drop_the_text:
  "convertOpenAIToClaude (\<lambda>s. None) 0
      \<lparr>response_id = Some ''chatcmpl-1'', response_model = Some ''anthropic/claude-sonnet-4'',
       choices = Some [\<lparr>choice_message = Some \<lparr>message_content = Some ''Hello'', tool_calls = Some []\<rparr>,
                        finish_reason = Some ''stop''\<rparr>],
       usage = None\<rparr>
     = Inr (Converted
        \<lparr>msg_id = ''chatcmpl-1'', msg_type = ''message'', msg_role = ''assistant'',
         msg_content = [], msg_model = Some ''anthropic/claude-sonnet-4'',
         stop_reason = Some ''tool_use'', msg_usage = None\<rparr>)"
  by (simp add: convertOpenAIToClaude_def tool_calls_of_def js_or_def convert_usage_def)

section \<open>Order of the frames of a streamed exchange\<close>

lemma snoc_decompose:
  "xs @ [x] = ys @ f # zs \<longleftrightarrow> (zs = [] \<and> ys = xs \<and> f = x) \<or> (\<exists>zs'. zs = zs' @ [x] \<and> xs = ys @ f # zs')"
  by (cases zs rule: rev_cases) auto

lemma starts_follow_Nil: "starts_follow []"
  by (simp add: starts_follow_def)

lemma starts_follow_snoc:
  "starts_follow (fs @ [x]) \<longleftrightarrow>
     starts_follow fs \<and> (is_block_start x \<longrightarrow> (\<exists>m\<in>set fs. is_message_start m))"
  unfolding starts_follow_def snoc_decompose by blast

lemma starts_follow_snoc2:
  "starts_follow (fs @ [x, y]) \<longleftrightarrow>
     starts_follow (fs @ [x]) \<and> (is_block_start y \<longrightarrow> (\<exists>m\<in>set (fs @ [x]). is_message_start m))"
  using starts_follow_snoc [of "fs @ [x]" y] by simp

lemma event_frame_facts:
  "event (event_frame ev) = ''content_block_delta''"
  "\<not> is_message_start (event_frame ev)"
  "is_block_start (event_frame ev) \<longleftrightarrow> event_type ev = ''content_block_start''"
  by (cases ev; simp add: event_frame_def is_message_start_def is_block_start_def)+

lemma message_start_frame_facts:
  "event (message_start_frame c) = ''message_start''"
  "is_message_start (message_start_frame c)"
  "\<not> is_block_start (message_start_frame c)"
  by (simp_all add: message_start_frame_def is_message_start_def is_block_start_def)

lemma filter_message_start_empty:
  "(\<forall>f\<in>set fs. \<not> is_message_start f \<and> \<not> is_block_start f) \<Longrightarrow> filter is_message_start fs = []"
  by (simp add: filter_empty_conv)

text \<open>The three ways a line changes the state.\<close>

lemma stream_inv_delta:
  assumes "stream_inv s" and "event_type ev \<noteq> ''content_block_start'' \<or> toolCallStarted s"
  shows "stream_inv (safeEnqueue accepts (event_frame ev) s)"
  using assms
  by (auto simp: stream_inv_def safeEnqueue_def starts_follow_snoc event_frame_facts)

lemma stream_inv_first_start:
  assumes "stream_inv s" and "\<not> toolCallStarted s" and "\<not> streamClosed s"
    and "s1 = (safeEnqueue accepts (message_start_frame c) s)\<lparr>toolCallStarted := True\<rparr>"
    and "event_type ev = ''content_block_start''"
  shows "stream_inv (if \<not> streamClosed s1 then safeEnqueue accepts (event_frame ev) s1 else s1)"
proof (cases "accepts (length (enqueued s))")
  case False
  then have "s1 = s\<lparr>streamClosed := True, toolCallStarted := True\<rparr>"
    using assms(3,4) by (simp add: safeEnqueue_def)
  then show ?thesis
    using assms(1) by (simp add: stream_inv_def)
next
  case True
  then have s1: "s1 = s\<lparr>enqueued := enqueued s @ [message_start_frame c], toolCallStarted := True\<rparr>"
    using assms(3,4) by (simp add: safeEnqueue_def)
  have none: "\<forall>f\<in>set (enqueued s). \<not> is_message_start f \<and> \<not> is_block_start f"
    using assms(1,2) by (simp add: stream_inv_def)
  have cnt: "filter is_message_start (enqueued s) = []"
    using none by (rule filter_message_start_empty)
  have sf: "starts_follow (enqueued s)" and ns: "\<forall>f\<in>set (enqueued s). event f \<noteq> ''message_stop''"
    using assms(1) by (simp_all add: stream_inv_def)
  show ?thesis
  proof (cases "accepts (length (enqueued s1))")
    case False
    then have "(if \<not> streamClosed s1 then safeEnqueue accepts (event_frame ev) s1 else s1)
        = s1\<lparr>streamClosed := True\<rparr>"
      using assms(3) by (simp add: s1 safeEnqueue_def)
    then show ?thesis
      using sf ns cnt
      by (simp add: s1 stream_inv_def starts_follow_snoc message_start_frame_facts)
  next
    case True
    then have "(if \<not> streamClosed s1 then safeEnqueue accepts (event_frame ev) s1 else s1)
        = s1\<lparr>enqueued := enqueued s1 @ [event_frame ev]\<rparr>"
      using assms(3) by (simp add: s1 safeEnqueue_def)
    then show ?thesis
      using sf ns cnt
      by (simp add: s1 stream_inv_def starts_follow_snoc starts_follow_snoc2
          message_start_frame_facts event_frame_facts assms(5))
  qed
qed

lemma stream_inv_process_line:
  assumes "stream_inv s"
  shows "stream_inv (process_line accepts parse line s)"
proof -
  have ev: "stream_inv
      (if \<not> streamClosed s then
         (let s1 = (if event_type claudeEvent = ''content_block_start'' \<and> \<not> toolCallStarted s
                    then (safeEnqueue accepts (message_start_frame openaiChunk) s)
                           \<lparr>toolCallStarted := True\<rparr>
                    else s)
          in if \<not> streamClosed s1 then safeEnqueue accepts (event_frame claudeEvent) s1 else s1)
       else s)" for claudeEvent openaiChunk
  proof (cases "streamClosed s")
    case True
    with assms show ?thesis by simp
  next
    case False
    show ?thesis
    proof (cases "event_type claudeEvent = ''content_block_start'' \<and> \<not> toolCallStarted s")
      case True
      with False stream_inv_first_start [OF assms _ False refl, of claudeEvent accepts openaiChunk]
      show ?thesis by (simp add: Let_def)
    next
      case no: False
      then have "event_type claudeEvent \<noteq> ''content_block_start'' \<or> toolCallStarted s" by blast
      from stream_inv_delta [OF assms this, of accepts] no False
      show ?thesis by (auto simp: Let_def)
    qed
  qed
  show ?thesis
    unfolding process_line_def Let_def
    using assms ev [unfolded Let_def]
    by (simp split: option.splits sum.splits)
qed

lemma stream_inv_process_lines:
  "stream_inv s \<Longrightarrow> stream_inv (process_lines accepts parse lines s)"
  by (induction lines arbitrary: s) (simp_all add: stream_inv_process_line)

lemma stream_inv_process_chunk:
  assumes "stream_inv s"
  shows "stream_inv (process_chunk accepts parse chunk s)"
proof -
  have "stream_inv (s\<lparr>buffer := b\<rparr>)" for b
    using assms by (simp add: stream_inv_def)
  then show ?thesis
    unfolding process_chunk_def Let_def by (rule stream_inv_process_lines)
qed

lemma stream_inv_read_loop:
  "stream_inv s \<Longrightarrow> stream_inv (snd (read_loop accepts parse chunks e s))"
  by (induction accepts parse chunks e s rule: read_loop.induct)
    (simp_all add: Let_def stream_inv_process_chunk)

lemma stream_inv_initial:
  "stream_inv \<lparr>buffer = [], toolCallStarted = False, streamClosed = False, enqueued = []\<rparr>"
  by (simp add: stream_inv_def starts_follow_Nil)

lemma message_stop_frame_facts:
  "event (message_stop_frame flag) = ''message_stop''"
  "\<not> is_message_start (message_stop_frame flag)"
  "\<not> is_block_start (message_stop_frame flag)"
  by (simp_all add: message_stop_frame_def is_message_start_def is_block_start_def)

text \<open>The state in which the reading loop ends, and the frames of the exchange.\<close>

lemma start_frames:
  obtains s where "stream_inv s" and "frames (start accepts parse chunks e) = enqueued s"
      and "\<not> controller_closed (start accepts parse chunks e)"
  | s where "stream_inv s" and "\<not> streamClosed s"
      and "frames (start accepts parse chunks e) = enqueued s @ [message_stop_frame (toolCallStarted s)]"
      and "controller_closed (start accepts parse chunks e)"
      and "fst (read_loop accepts parse chunks e
             \<lparr>buffer = [], toolCallStarted = False, streamClosed = False, enqueued = []\<rparr>) \<noteq> Broke
           \<longrightarrow> exhausted (start accepts parse chunks e)"
proof -
  let ?s0 = "\<lparr>buffer = [], toolCallStarted = False, streamClosed = False, enqueued = []\<rparr>"
  obtain ex s where rl: "read_loop accepts parse chunks e ?s0 = (ex, s)"
    by (cases "read_loop accepts parse chunks e ?s0")
  have inv: "stream_inv s"
    using stream_inv_read_loop [OF stream_inv_initial, of accepts parse chunks e] rl by simp
  show ?thesis
  proof (cases "(\<exists>err. ex = Raised err) \<or> streamClosed s \<or> \<not> accepts (length (enqueued s))")
    case True
    then have "frames (start accepts parse chunks e) = enqueued s"
        and "\<not> controller_closed (start accepts parse chunks e)"
      using rl by (auto simp: start_def safeEnqueue_def Let_def split: loop_exit.splits)
    with inv show ?thesis by (rule that(1))
  next
    case False
    then have "frames (start accepts parse chunks e) =
          enqueued s @ [message_stop_frame (toolCallStarted s)]"
        and "controller_closed (start accepts parse chunks e)"
        and "ex \<noteq> Broke \<longrightarrow> exhausted (start accepts parse chunks e)"
      using rl by (auto simp: start_def safeEnqueue_def Let_def split: loop_exit.splits)
    with inv False rl show ?thesis by (intro that(2) [of s]) simp_all
  qed
qed

lemma read_loop_Broke:
  "fst (read_loop accepts parse chunks e s) = Broke \<Longrightarrow> streamClosed (snd (read_loop accepts parse chunks e s))"
  by (induction accepts parse chunks e s rule: read_loop.induct)
    (simp_all add: Let_def split: if_splits)

text \<open>
  C1, as the code has it. In every exchange, whatever the upstream chunks are, however
  the source ends and whatever the consumer does: every frame that carries the start of
  a tool-use block has a \<^verbatim>\<open>message_start\<close> frame before it, and at most one
  \<^verbatim>\<open>message_start\<close> frame is written.
\<close>

theorem message_start_precedes_block_starts:
  "(\<forall>xs f ys. frames (start accepts parse chunks e) = xs @ f # ys \<and> is_block_start f \<longrightarrow>
       (\<exists>m\<in>set xs. is_message_start m))
   \<and> length (filter is_message_start (frames (start accepts parse chunks e))) \<le> 1"
proof -
  have "starts_follow (frames (start accepts parse chunks e))
      \<and> length (filter is_message_start (frames (start accepts parse chunks e))) \<le> 1"
  proof (cases rule: start_frames [of accepts parse chunks e])
    case (1 s)
    then show ?thesis by (simp add: stream_inv_def)
  next
    case (2 s)
    then show ?thesis
      by (simp add: stream_inv_def starts_follow_snoc message_stop_frame_facts)
  qed
  then show ?thesis
    unfolding starts_follow_def by blast
qed

theorem message_start_precedes_block_starts_witness:
  "frames (start (\<lambda>n. True) example_parse
      [''data: '' @ tool_start_payload @ [CHR 0x0A], ''data: '' @ arguments_payload @ [CHR 0x0A],
       ''data: [DONE]'' @ [CHR 0x0A]] Done)
     = [message_start_frame \<lparr>chunk_id = Some ''c1'', chunk_model = Some ''m'', chunk_choices = None\<rparr>,
        event_frame (ContentBlockStart 0 ''X'' (Some ''f'')),
        event_frame (InputJsonDelta (Some 0) ''[1]''),
        message_stop_frame True]
   \<and> (\<exists>m\<in>set [message_start_frame
          \<lparr>chunk_id = Some ''c1'', chunk_model = Some ''m'', chunk_choices = None\<rparr>].
        is_message_start m)"
proof -
  let ?chunks = "[''data: '' @ tool_start_payload @ [CHR 0x0A],
       ''data: '' @ arguments_payload @ [CHR 0x0A], ''data: [DONE]'' @ [CHR 0x0A]]"
  let ?ms = "message_start_frame \<lparr>chunk_id = Some ''c1'', chunk_model = Some ''m'', chunk_choices = None\<rparr>"
  let ?sf = "event_frame (ContentBlockStart 0 ''X'' (Some ''f''))"
  have fr: "frames (start (\<lambda>n. True) example_parse ?chunks Done)
      = [?ms] @ ?sf # [event_frame (InputJsonDelta (Some 0) ''[1]''), message_stop_frame True]"
    by code_simp
  have bs: "is_block_start ?sf"
    by (simp add: event_frame_facts)
  from message_start_precedes_block_starts [of "\<lambda>n. True" example_parse ?chunks Done]
  have "\<forall>xs f ys. frames (start (\<lambda>n. True) example_parse ?chunks Done) = xs @ f # ys
      \<and> is_block_start f \<longrightarrow> (\<exists>m\<in>set xs. is_message_start m)"
    by (rule conjunct1)
  with fr bs have "\<exists>m\<in>set [?ms]. is_message_start m" by blast
  with fr show ?thesis by simp
qed

text \<open>
  C1 as stated fails for a plain text exchange: the single upstream frame with the
  text \<^verbatim>\<open>Hi\<close> is written as a content delta at index 0, and neither a
  \<^verbatim>\<open>message_start\<close> frame nor a start event for index 0 is written before it.
\<close>

theorem text_delta_without_start_counterexample:
  "frames (start (\<lambda>n. True) example_parse [''data: '' @ text_payload @ [CHR 0x0A]] Done)
     = [\<lparr>event = ''content_block_delta'', data = EventData (TextDelta ''Hi'')\<rparr>,
        \<lparr>event = ''message_stop'', data = MessageStop False\<rparr>]"
  by code_simp

section \<open>The terminal event\<close>

lemma open_safeEnqueue:
  "\<forall>n. accepts n \<Longrightarrow> \<not> streamClosed s \<Longrightarrow> \<not> streamClosed (safeEnqueue accepts f s)"
  by (simp add: safeEnqueue_def)

lemma open_process_line:
  assumes "\<forall>n. accepts n" and "\<not> streamClosed s"
  shows "\<not> streamClosed (process_line accepts parse line s)"
  using assms
  by (simp add: process_line_def Let_def safeEnqueue_def split: option.splits sum.splits)

lemma open_process_lines:
  "\<forall>n. accepts n \<Longrightarrow> \<not> streamClosed s \<Longrightarrow> \<not> streamClosed (process_lines accepts parse lines s)"
  by (induction lines arbitrary: s) (simp_all add: open_process_line)

lemma open_process_chunk:
  assumes "\<forall>n. accepts n" and "\<not> streamClosed s"
  shows "\<not> streamClosed (process_chunk accepts parse chunk s)"
  unfolding process_chunk_def Let_def
  using assms by (intro open_process_lines) simp_all

lemma open_read_loop:
  "\<forall>n. accepts n \<Longrightarrow> \<not> streamClosed s \<Longrightarrow>
     \<not> streamClosed (snd (read_loop accepts parse chunks Done s))
     \<and> fst (read_loop accepts parse chunks Done s) = SawDone"
  by (induction chunks arbitrary: s) (simp_all add: Let_def open_process_chunk)

lemma read_loop_Done_not_Raised:
  "fst (read_loop accepts parse chunks Done s) \<noteq> Raised err"
  by (induction chunks arbitrary: s) (simp_all add: Let_def)

lemma snoc_decompose_stop:
  assumes "xs @ [x] = ys @ f # zs" and "\<forall>g\<in>set xs. P g" and "\<not> P f"
  shows "zs = [] \<and> ys = xs \<and> f = x"
  using assms unfolding snoc_decompose by auto

text \<open>
  C2, as the code has it. When the source ends with \<^verbatim>\<open>done\<close> and no enqueue has failed
  (the handler itself closes the output at the end; this is so whenever the consumer
  accepts every frame), the reader was read to exhaustion and the frames end with one
  \<^verbatim>\<open>message_stop\<close> frame, there is no other one, and its flag says whether the start
  of a tool-use block was written before. In every exchange, a \<^verbatim>\<open>message_stop\<close> frame is
  the last frame and the only one of its kind.
\<close>

theorem terminal_event_on_exhaustion:
  "((\<forall>n. accepts n) \<longrightarrow> controller_closed (start accepts parse chunks Done))
   \<and> (controller_closed (start accepts parse chunks Done) \<longrightarrow>
        exhausted (start accepts parse chunks Done)
        \<and> (\<exists>xs flag. frames (start accepts parse chunks Done) = xs @ [message_stop_frame flag]
              \<and> (\<forall>f\<in>set xs. event f \<noteq> ''message_stop'')
              \<and> (flag \<longleftrightarrow> (\<exists>f\<in>set xs. is_block_start f))))
   \<and> (\<forall>xs f ys. frames (start accepts parse chunks e) = xs @ f # ys \<and> event f = ''message_stop'' \<longrightarrow>
        ys = [] \<and> (\<forall>g\<in>set xs. event g \<noteq> ''message_stop''))"
proof (intro conjI impI allI)
  let ?s0 = "\<lparr>buffer = [], toolCallStarted = False, streamClosed = False, enqueued = []\<rparr>"
  assume all: "\<forall>n. accepts n"
  obtain ex s where rl: "read_loop accepts parse chunks Done ?s0 = (ex, s)"
    by (cases "read_loop accepts parse chunks Done ?s0")
  from open_read_loop [OF all, of ?s0 parse chunks] rl
  have "\<not> streamClosed s" and "ex = SawDone" by simp_all
  then show "controller_closed (start accepts parse chunks Done)"
    using rl all by (simp add: start_def safeEnqueue_def Let_def)
next
  let ?s0 = "\<lparr>buffer = [], toolCallStarted = False, streamClosed = False, enqueued = []\<rparr>"
  assume closed: "controller_closed (start accepts parse chunks Done)"
  from closed obtain s where inv: "stream_inv s" and op: "\<not> streamClosed s"
    and fr: "frames (start accepts parse chunks Done) =
        enqueued s @ [message_stop_frame (toolCallStarted s)]"
    and ex: "fst (read_loop accepts parse chunks Done ?s0) \<noteq> Broke
        \<longrightarrow> exhausted (start accepts parse chunks Done)"
    by (cases rule: start_frames [of accepts parse chunks Done]) auto
  show "exhausted (start accepts parse chunks Done)"
  proof -
    obtain x s' where rl: "read_loop accepts parse chunks Done ?s0 = (x, s')"
      by (cases "read_loop accepts parse chunks Done ?s0")
    have "x \<noteq> Broke"
    proof
      assume "x = Broke"
      with read_loop_Broke [of accepts parse chunks Done ?s0] rl have "streamClosed s'" by simp
      with rl \<open>x = Broke\<close> closed show False
        by (simp add: start_def Let_def)
    qed
    with ex rl show ?thesis by simp
  qed
  have flag: "toolCallStarted s \<longleftrightarrow> (\<exists>f\<in>set (enqueued s). is_block_start f)"
    using inv op unfolding stream_inv_def by blast
  have nostop: "\<forall>f\<in>set (enqueued s). event f \<noteq> ''message_stop''"
    using inv unfolding stream_inv_def by blast
  from fr flag nostop
  show "\<exists>xs flag. frames (start accepts parse chunks Done) = xs @ [message_stop_frame flag]
      \<and> (\<forall>f\<in>set xs. event f \<noteq> ''message_stop'')
      \<and> (flag \<longleftrightarrow> (\<exists>f\<in>set xs. is_block_start f))"
    by blast
next
  fix xs f ys
  assume a: "frames (start accepts parse chunks e) = xs @ f # ys \<and> event f = ''message_stop''"
  show "ys = []"
  proof (cases rule: start_frames [of accepts parse chunks e])
    case (1 s)
    then have "\<forall>g\<in>set (xs @ f # ys). event g \<noteq> ''message_stop''"
      using a by (simp add: stream_inv_def)
    with a show ?thesis by simp
  next
    case (2 s)
    then have "\<forall>g\<in>set (enqueued s). event g \<noteq> ''message_stop''"
      by (simp add: stream_inv_def)
    from snoc_decompose_stop [OF _ this, of "message_stop_frame (toolCallStarted s)" xs f ys] a 2(3)
    show ?thesis by simp
  qed
next
  fix xs f ys
  assume a: "frames (start accepts parse chunks e) = xs @ f # ys \<and> event f = ''message_stop''"
  show "\<forall>g\<in>set xs. event g \<noteq> ''message_stop''"
  proof (cases rule: start_frames [of accepts parse chunks e])
    case (1 s)
    then have "\<forall>g\<in>set (xs @ f # ys). event g \<noteq> ''message_stop''"
      using a by (simp add: stream_inv_def)
    then show ?thesis by simp
  next
    case (2 s)
    then have ns: "\<forall>g\<in>set (enqueued s). event g \<noteq> ''message_stop''"
      by (simp add: stream_inv_def)
    from snoc_decompose_stop [OF _ this, of "message_stop_frame (toolCallStarted s)" xs f ys] a 2(3)
    have "xs = enqueued s" by simp
    with ns show ?thesis by simp
  qed
qed

theorem terminal_event_on_exhaustion_witness:
  "controller_closed (start (\<lambda>n. True) example_parse
      [''data: '' @ tool_start_payload @ [CHR 0x0A], ''data: '' @ arguments_payload @ [CHR 0x0A]] Done)
   \<and> exhausted (start (\<lambda>n. True) example_parse
      [''data: '' @ tool_start_payload @ [CHR 0x0A], ''data: '' @ arguments_payload @ [CHR 0x0A]] Done)
   \<and> frames (start (\<lambda>n. True) example_parse
      [''data: '' @ tool_start_payload @ [CHR 0x0A], ''data: '' @ arguments_payload @ [CHR 0x0A]] Done)
     = [message_start_frame \<lparr>chunk_id = Some ''c1'', chunk_model = Some ''m'', chunk_choices = None\<rparr>,
        event_frame (ContentBlockStart 0 ''X'' (Some ''f'')),
        event_frame (InputJsonDelta (Some 0) ''[1]'')]
       @ [message_stop_frame True]"
proof -
  let ?chunks = "[''data: '' @ tool_start_payload @ [CHR 0x0A],
       ''data: '' @ arguments_payload @ [CHR 0x0A]]"
  have fr: "frames (start (\<lambda>n. True) example_parse ?chunks Done)
     = [message_start_frame \<lparr>chunk_id = Some ''c1'', chunk_model = Some ''m'', chunk_choices = None\<rparr>,
        event_frame (ContentBlockStart 0 ''X'' (Some ''f'')),
        event_frame (InputJsonDelta (Some 0) ''[1]'')]
       @ [message_stop_frame True]"
    by code_simp
  from terminal_event_on_exhaustion [of "\<lambda>n. True" example_parse ?chunks]
  have c: "controller_closed (start (\<lambda>n. True) example_parse ?chunks Done)"
    and "controller_closed (start (\<lambda>n. True) example_parse ?chunks Done) \<longrightarrow>
        exhausted (start (\<lambda>n. True) example_parse ?chunks Done)"
    by simp_all
  with fr show ?thesis by blast
qed

text \<open>
  C2 as stated fails when the consumer has gone: the output accepts the first frame
  and is cancelled afterwards. The source is read to exhaustion (no enqueue fails while
  it is read), the enqueue of the \<^verbatim>\<open>message_stop\<close> frame throws, the exception is
  swallowed by \<^verbatim>\<open>safeEnqueue\<close>, and no \<^verbatim>\<open>message_stop\<close> frame is part of the output.
\<close>

theorem no_terminal_event_counterexample:
  "start (\<lambda>n. n < 1) example_parse [''data: '' @ text_payload @ [CHR 0x0A]] Done
     = \<lparr>frames = [\<lparr>event = ''content_block_delta'', data = EventData (TextDelta ''Hi'')\<rparr>],
        exhausted = True, controller_closed = False, controller_error = None\<rparr>"
  by code_simp

end
